theory Spec2Isabelle
  imports Complex_Main
begin

section \<open>Mouth Explorer: picking, selection and camera choreography of \<open>App.jsx\<close>\<close>

text \<open>
  The embedding follows \<open>src/src/App.jsx\<close>. JavaScript numbers are modelled as real
  numbers (arithmetic without rounding). The React state of \<open>App\<close> is the record
  \<open>AppState\<close>; everything that lives outside React state (the camera, the orbit
  controls, the refs, the browser's animation-frame callbacks and the objects of the
  loaded scene) is the record \<open>Host\<close>. An event handler maps the React state to the
  next one (all setters of one handler are applied as one batch), and \<open>commit\<close> then runs
  the effects whose dependency arrays changed. The state variables \<open>modelStatus\<close>,
  \<open>modelError\<close> and \<open>meshNames\<close> and the drawer are display only and are left out.
\<close>

subsection \<open>three.js values used by the code\<close>

text \<open>\<open>Vector3\<close>; the fields \<open>x\<close>, \<open>y\<close>, \<open>z\<close> are named \<open>vx\<close>, \<open>vy\<close>, \<open>vz\<close>.\<close>

record Vector3 =
  vx :: real
  vy :: real
  vz :: real

definition Vector3_sub :: "Vector3 \<Rightarrow> Vector3 \<Rightarrow> Vector3" where
  "Vector3_sub a b = \<lparr>vx = vx a - vx b, vy = vy a - vy b, vz = vz a - vz b\<rparr>"

definition Vector3_add :: "Vector3 \<Rightarrow> Vector3 \<Rightarrow> Vector3" where
  "Vector3_add a b = \<lparr>vx = vx a + vx b, vy = vy a + vy b, vz = vz a + vz b\<rparr>"

definition multiplyScalar :: "Vector3 \<Rightarrow> real \<Rightarrow> Vector3" where
  "multiplyScalar a s = \<lparr>vx = vx a * s, vy = vy a * s, vz = vz a * s\<rparr>"

text \<open>\<open>lerpVectors(v1, v2, alpha)\<close> computes \<open>v1 + (v2 - v1) * alpha\<close> in each coordinate.\<close>

definition lerpVectors :: "Vector3 \<Rightarrow> Vector3 \<Rightarrow> real \<Rightarrow> Vector3" where
  "lerpVectors v1 v2 alpha =
     \<lparr>vx = vx v1 + (vx v2 - vx v1) * alpha,
      vy = vy v1 + (vy v2 - vy v1) * alpha,
      vz = vz v1 + (vz v2 - vz v1) * alpha\<rparr>"

text \<open>
  \<open>Box3\<close> with \<open>isEmpty\<close> and \<open>getCenter\<close>: the centre of an empty box is the
  origin, otherwise the midpoint of \<open>min\<close> and \<open>max\<close>.
\<close>

record Box3 =
  box_min :: Vector3
  box_max :: Vector3

definition isEmpty :: "Box3 \<Rightarrow> bool" where
  "isEmpty b \<longleftrightarrow>
     vx (box_max b) < vx (box_min b) \<or> vy (box_max b) < vy (box_min b) \<or> vz (box_max b) < vz (box_min b)"

definition getCenter :: "Box3 \<Rightarrow> Vector3" where
  "getCenter b =
     (if isEmpty b then \<lparr>vx = 0, vy = 0, vz = 0\<rparr>
      else multiplyScalar (Vector3_add (box_min b) (box_max b)) 0.5)"

text \<open>A camera position together with the point it orbits around.\<close>

record ViewPose =
  position :: Vector3
  target :: Vector3

subsection \<open>The scene: objects and materials as a store\<close>

text \<open>
  Objects and materials are JavaScript objects with identity, and the highlight effect
  replaces an object's material by a clone. Both are therefore kept in stores: the
  address of an object is its index in the traversal order of the scene, the address of a
  material is its index in the list of materials.
\<close>

type_synonym obj_ref = nat
type_synonym mat_ref = nat
type_synonym Color = string

definition HIGHLIGHT_COLOR :: Color where
  "HIGHLIGHT_COLOR = ''#f5b77a''"

record Material =
  cloned :: bool
  emissive :: "Color option"
  emissiveIntensity :: real

text \<open>
  \<open>cloned\<close> is \<open>userData._cloned\<close>; \<open>emissive\<close> is \<open>None\<close> for a material type
  without an emissive colour. In \<open>Object3D\<close>, \<open>material\<close> is \<open>None\<close> when the object has
  no material or an array of materials (then \<open>child.material?.isMaterial\<close> is not true);
  \<open>bbox\<close> is the world-space box that \<open>new Box3().setFromObject\<close> computes for the object.
\<close>

record Object3D =
  uuid :: string
  name :: string
  isMesh :: bool
  material :: "mat_ref option"
  bbox :: Box3

subsection \<open>React state of \<open>App\<close> and the host\<close>

record HoverInfo =
  hover_name :: string
  hover_x :: real
  hover_y :: real
  visible :: bool

text \<open>
  \<open>resetView\<close> holds an object created by the Home button; the first component is the
  identity of that object (dependency arrays compare objects by identity).
  \<open>gltfScene\<close> is \<open>True\<close> once the scene root has been stored by \<open>onSceneReady\<close>.
\<close>

record AppState =
  selectedId :: "string option"
  selectedName :: string
  selectedMesh :: "obj_ref option"
  gltfScene :: bool
  showInstructions :: bool
  debugEnabled :: bool
  hoverInfo :: HoverInfo
  resetKey :: nat
  resetView :: "(nat \<times> ViewPose) option"

text \<open>
  The closure of one \<open>animate\<close> callback: the variables of the effect run that created it.
\<close>

record Transition =
  startPos :: Vector3
  startTarget :: Vector3
  endPos :: Vector3
  endTarget :: Vector3
  startTime :: real

text \<open>
  \<open>controlsRef_current\<close> tells whether \<open>controlsRef.current\<close> holds the orbit controls;
  \<open>camera_position\<close> is \<open>camera.position\<close> and \<open>controls_target\<close> is the \<open>target\<close> of
  the orbit controls (together the live pose); \<open>defaultView\<close> is \<open>defaultView.current\<close>;
  \<open>rafRef\<close> is \<open>rafRef.current\<close>. \<open>raf_queue\<close> is the browser's list of pending
  animation-frame callbacks, each with the id that \<open>requestAnimationFrame\<close> returned, and
  \<open>next_raf\<close> the next id; \<open>has_cleanup\<close> tells whether the last run of the
  \<open>CameraFocus\<close> effect returned its cleanup function; \<open>next_obj\<close> is the identity of the
  next object that a handler creates; \<open>objs\<close> and \<open>mats\<close> are the two stores of the scene.
\<close>

record Host =
  controlsRef_current :: bool
  camera_position :: Vector3
  controls_target :: Vector3
  defaultView :: ViewPose
  rafRef :: "nat option"
  has_cleanup :: bool
  raf_queue :: "(nat \<times> Transition) list"
  next_raf :: nat
  next_obj :: nat
  objs :: "Object3D list"
  mats :: "Material list"

subsection \<open>\<open>Model\<close>: the highlight effect\<close>

text \<open>The callback of \<open>gltf.scene.traverse\<close>, applied to the object at address \<open>i\<close>.\<close>

definition highlight_child :: "string option \<Rightarrow> obj_ref \<Rightarrow> Host \<Rightarrow> Host" where
  "highlight_child sid i h =
     (let child = objs h ! i in
      if \<not> isMesh child then h
      else case material child of
        None \<Rightarrow> h
      | Some r0 \<Rightarrow>
          let h1 = (if \<not> cloned (mats h ! r0)
                    then h\<lparr>objs := (objs h)[i := child\<lparr>material := Some (length (mats h))\<rparr>],
                           mats := mats h @ [(mats h ! r0)\<lparr>cloned := True\<rparr>]\<rparr>
                    else h);
              r = (if \<not> cloned (mats h ! r0) then length (mats h) else r0)
          in (case emissive (mats h1 ! r) of
                None \<Rightarrow> h1
              | Some c \<Rightarrow>
                  let isSelected = (Some (uuid child) = sid)
                  in h1\<lparr>mats := (mats h1)[r := (mats h1 ! r)
                           \<lparr>emissive := Some (if isSelected then HIGHLIGHT_COLOR else ''#000000''),
                            emissiveIntensity := (if isSelected then 0.6 else 0)\<rparr>]\<rparr>))"

definition Model_highlight_effect :: "string option \<Rightarrow> Host \<Rightarrow> Host" where
  "Model_highlight_effect sid h = fold (highlight_child sid) [0..<length (objs h)] h"

subsection \<open>\<open>CameraFocus\<close>: the transition effect and its frame callback\<close>

definition duration :: real where
  "duration = 600"

definition easeInOut :: "real \<Rightarrow> real" where
  "easeInOut t = (if t < 0.5 then 4 * t * t * t else 1 - ((- 2 * t + 2) ^ 3) / 2)"

text \<open>\<open>requestAnimationFrame(animate)\<close> followed by the store into \<open>rafRef.current\<close>.\<close>

definition requestAnimationFrame :: "Transition \<Rightarrow> Host \<Rightarrow> Host" where
  "requestAnimationFrame tr h =
     h\<lparr>raf_queue := raf_queue h @ [(next_raf h, tr)],
       rafRef := Some (next_raf h),
       next_raf := next_raf h + 1\<rparr>"

definition cancelAnimationFrame :: "nat \<Rightarrow> Host \<Rightarrow> Host" where
  "cancelAnimationFrame k h = h\<lparr>raf_queue := filter (\<lambda>e. fst e \<noteq> k) (raf_queue h)\<rparr>"

text \<open>
  One call of \<open>animate(now)\<close>. \<open>update\<close> is what \<open>controls.update()\<close> of the orbit
  controls does to the pose in this frame (damping, pending user input).
\<close>

definition animate :: "(ViewPose \<Rightarrow> ViewPose) \<Rightarrow> Transition \<Rightarrow> real \<Rightarrow> Host \<Rightarrow> Host" where
  "animate update tr now h =
     (let elapsed = now - startTime tr;
          t = min (elapsed / duration) 1;
          eased = easeInOut t;
          p = update \<lparr>position = lerpVectors (startPos tr) (endPos tr) eased,
                      target = lerpVectors (startTarget tr) (endTarget tr) eased\<rparr>;
          h1 = h\<lparr>camera_position := position p, controls_target := target p\<rparr>
      in if t < 1 then requestAnimationFrame tr h1 else h1)"

text \<open>The browser runs the callbacks that were pending when the frame began.\<close>

definition run_frame :: "(ViewPose \<Rightarrow> ViewPose) \<Rightarrow> real \<Rightarrow> Host \<Rightarrow> Host" where
  "run_frame update now h =
     fold (\<lambda>e. animate update (snd e) now) (raf_queue h) (h\<lparr>raf_queue := []\<rparr>)"

text \<open>The cleanup function returned by the effect (a zero id is falsy).\<close>

definition CameraFocus_cleanup :: "Host \<Rightarrow> Host" where
  "CameraFocus_cleanup h =
     (if has_cleanup h
      then (case rafRef h of
              None \<Rightarrow> h
            | Some k \<Rightarrow> if k = 0 then h else cancelAnimationFrame k h)
      else h)"

text \<open>The end pose chosen by the effect: \<open>(endTarget, endPos)\<close>, reset request first.\<close>

definition end_pose :: "AppState \<Rightarrow> Host \<Rightarrow> (Vector3 \<times> Vector3) option" where
  "end_pose a h =
     (case resetView a of
        Some rv \<Rightarrow> Some (target (snd rv), position (snd rv))
      | None \<Rightarrow>
          (case selectedMesh a of
             Some m \<Rightarrow>
               let box = bbox (objs h ! m);
                   center = getCenter box;
                   offset = Vector3_sub (camera_position h) (controls_target h)
               in Some (center, Vector3_add center offset)
           | None \<Rightarrow> None))"

text \<open>The body of the effect, run at time \<open>now\<close> (\<open>performance.now()\<close>).\<close>

definition CameraFocus_effect :: "real \<Rightarrow> AppState \<Rightarrow> Host \<Rightarrow> Host" where
  "CameraFocus_effect now a h =
     (if \<not> controlsRef_current h then h\<lparr>has_cleanup := False\<rparr>
      else if selectedMesh a = None \<and> resetView a = None then h\<lparr>has_cleanup := False\<rparr>
      else case end_pose a h of
             None \<Rightarrow> h\<lparr>has_cleanup := False\<rparr>
           | Some e \<Rightarrow>
               requestAnimationFrame
                 \<lparr>startPos = camera_position h, startTarget = controls_target h,
                  endPos = snd e, endTarget = fst e, startTime = now\<rparr>
                 (h\<lparr>has_cleanup := True\<rparr>))"

text \<open>
  The dependency array \<open>[camera, controlsRef, resetKey, resetView, selectedMesh]\<close>:
  \<open>camera\<close> and \<open>controlsRef\<close> never change; \<open>resetView\<close> is compared by identity.
\<close>

definition CameraFocus_deps_changed :: "AppState \<Rightarrow> AppState \<Rightarrow> bool" where
  "CameraFocus_deps_changed a a' \<longleftrightarrow>
     resetKey a' \<noteq> resetKey a
     \<or> map_option fst (resetView a') \<noteq> map_option fst (resetView a)
     \<or> selectedMesh a' \<noteq> selectedMesh a"

text \<open>
  After a batch of state updates: the effects whose dependencies changed between the
  previous render \<open>a\<close> and the new one \<open>a'\<close> run again (cleanup first). The highlight
  effect of \<open>Model\<close> exists once the model is mounted.
\<close>

definition commit :: "real \<Rightarrow> AppState \<Rightarrow> AppState \<Rightarrow> Host \<Rightarrow> Host" where
  "commit now a a' h =
     (let h1 = (if gltfScene a \<and> selectedId a' \<noteq> selectedId a
                then Model_highlight_effect (selectedId a') h else h)
      in if CameraFocus_deps_changed a a'
         then CameraFocus_effect now a' (CameraFocus_cleanup h1)
         else h1)"

subsection \<open>\<open>ScenePicker\<close>: picking on pointer-down\<close>

record PointerEvent =
  clientX :: real
  clientY :: real

text \<open>The rectangle returned by \<open>gl.domElement.getBoundingClientRect()\<close>.\<close>

record DOMRect =
  rect_left :: real
  rect_top :: real
  rect_width :: real
  rect_height :: real

definition offsets :: "(real \<times> real) list" where
  "offsets = [(0, 0), (6, 0), (- 6, 0), (0, 6), (0, - 6), (8, 8), (- 8, 8), (8, - 8), (- 8, - 8)]"

text \<open>
  The normalised device coordinates computed for the pixel \<open>(px, py)\<close> of the render
  surface.
\<close>

definition ndc :: "DOMRect \<Rightarrow> real \<Rightarrow> real \<Rightarrow> real \<times> real" where
  "ndc rect px py = ((px / rect_width rect) * 2 - 1, - ((py / rect_height rect) * 2 - 1))"

text \<open>
  The \<open>for\<close> loop of \<open>handlePointerDown\<close>. \<open>ray\<close> is the host's raycaster for the
  current camera: \<open>ray p\<close> is the list of objects that
  \<open>raycaster.intersectObject(scene, true)\<close> returns after \<open>setFromCamera(p, camera)\<close>,
  nearest first. The result is the hit, if any, and the rays that were cast, in order
  (added to the rays in \<open>cast\<close>).
\<close>

fun pick_loop ::
  "(real \<times> real \<Rightarrow> obj_ref list) \<Rightarrow> Object3D list \<Rightarrow> DOMRect \<Rightarrow> real \<Rightarrow> real \<Rightarrow>
   (real \<times> real) list \<Rightarrow> (real \<times> real) list \<Rightarrow> obj_ref option \<times> (real \<times> real) list" where
  "pick_loop ray os rect baseX baseY [] cast = (None, cast)"
| "pick_loop ray os rect baseX baseY (d # rest) cast =
     (let p = ndc rect (baseX + fst d) (baseY + snd d);
          hits = ray p;
          hit = find (\<lambda>i. isMesh (os ! i)) hits
      in case hit of
           Some m \<Rightarrow> (Some m, cast @ [p])
         | None \<Rightarrow> pick_loop ray os rect baseX baseY rest (cast @ [p]))"

definition pick ::
  "(real \<times> real \<Rightarrow> obj_ref list) \<Rightarrow> Object3D list \<Rightarrow> DOMRect \<Rightarrow> PointerEvent \<Rightarrow>
   obj_ref option \<times> (real \<times> real) list" where
  "pick ray os rect ev =
     (let baseX = clientX ev - rect_left rect;
          baseY = clientY ev - rect_top rect
      in pick_loop ray os rect baseX baseY offsets [])"

text \<open>\<open>mesh.name || 'Unnamed mesh'\<close>\<close>

definition display_name :: "Object3D \<Rightarrow> string" where
  "display_name mesh = (if name mesh = [] then ''Unnamed mesh'' else name mesh)"

text \<open>The callbacks that \<open>App\<close> passes to \<open>ScenePicker\<close>.\<close>

definition onSelect :: "obj_ref \<Rightarrow> Object3D \<Rightarrow> PointerEvent \<Rightarrow> AppState \<Rightarrow> AppState" where
  "onSelect m mesh ev a =
     a\<lparr>selectedId := Some (uuid mesh),
       selectedName := display_name mesh,
       selectedMesh := Some m,
       resetView := None,
       hoverInfo := (if debugEnabled a
                     then \<lparr>hover_name = display_name mesh, hover_x = clientX ev,
                           hover_y = clientY ev, visible = True\<rparr>
                     else hoverInfo a)\<rparr>"

definition onMiss :: "AppState \<Rightarrow> AppState" where
  "onMiss a =
     a\<lparr>selectedId := None, selectedName := [], selectedMesh := None,
       hoverInfo := (hoverInfo a)\<lparr>visible := False\<rparr>\<rparr>"

definition onFirstInteract :: "AppState \<Rightarrow> AppState" where
  "onFirstInteract a = a\<lparr>showInstructions := False\<rparr>"

definition handlePointerDown ::
  "(real \<times> real \<Rightarrow> obj_ref list) \<Rightarrow> Object3D list \<Rightarrow> DOMRect \<Rightarrow> PointerEvent \<Rightarrow>
   AppState \<Rightarrow> AppState" where
  "handlePointerDown ray os rect ev a =
     (let a1 = onFirstInteract a
      in case fst (pick ray os rect ev) of
           Some m \<Rightarrow> onSelect m (os ! m) ev a1
         | None \<Rightarrow> onMiss a1)"

subsection \<open>\<open>HoverProbe\<close>\<close>

text \<open>The ray test of \<open>handlePointerMove\<close>: the hit, if any, and the rays that were cast.\<close>

definition probe ::
  "(real \<times> real \<Rightarrow> obj_ref list) \<Rightarrow> Object3D list \<Rightarrow> DOMRect \<Rightarrow> PointerEvent \<Rightarrow>
   obj_ref option \<times> (real \<times> real) list" where
  "probe ray os rect ev =
     (let p = ndc rect (clientX ev - rect_left rect) (clientY ev - rect_top rect);
          hits = ray p;
          hit = find (\<lambda>i. isMesh (os ! i)) hits
      in (hit, [p]))"

definition onHover :: "Object3D \<Rightarrow> real \<times> real \<Rightarrow> AppState \<Rightarrow> AppState" where
  "onHover mesh pos a =
     a\<lparr>hoverInfo := \<lparr>hover_name = display_name mesh, hover_x = fst pos, hover_y = snd pos,
                     visible = True\<rparr>\<rparr>"

definition onLeave :: "AppState \<Rightarrow> AppState" where
  "onLeave a = a\<lparr>hoverInfo := (hoverInfo a)\<lparr>visible := False\<rparr>\<rparr>"

definition handlePointerMove ::
  "(real \<times> real \<Rightarrow> obj_ref list) \<Rightarrow> Object3D list \<Rightarrow> DOMRect \<Rightarrow> PointerEvent \<Rightarrow>
   AppState \<Rightarrow> AppState" where
  "handlePointerMove ray os rect ev a =
     (case fst (probe ray os rect ev) of
        Some m \<Rightarrow> onHover (os ! m) (clientX ev, clientY ev) a
      | None \<Rightarrow> onLeave a)"

definition handlePointerLeave :: "AppState \<Rightarrow> AppState" where
  "handlePointerLeave a = onLeave a"

subsection \<open>The buttons of \<open>App\<close>\<close>

text \<open>The Home button; \<open>fresh\<close> is the identity of the object it creates.\<close>

definition home_onClick :: "nat \<Rightarrow> ViewPose \<Rightarrow> AppState \<Rightarrow> AppState" where
  "home_onClick fresh dv a =
     a\<lparr>selectedId := None, selectedName := [], selectedMesh := None,
       resetView := Some (fresh, \<lparr>position = position dv, target = target dv\<rparr>),
       resetKey := resetKey a + 1\<rparr>"

definition debug_onClick :: "AppState \<Rightarrow> AppState" where
  "debug_onClick a = a\<lparr>debugEnabled := \<not> debugEnabled a\<rparr>"

definition clear_onClick :: "AppState \<Rightarrow> AppState" where
  "clear_onClick a = a\<lparr>selectedId := None, selectedName := [], selectedMesh := None\<rparr>"

subsection \<open>Events and the step function\<close>

text \<open>
  \<open>SceneReady\<close>: the model has loaded and \<open>Model\<close> mounts. Pointer events carry the
  rectangle of the render surface and the host's raycaster for the camera of that moment;
  events that can start a transition carry the value of \<open>performance.now()\<close>.
  \<open>Frame now update\<close> is an animation frame with timestamp \<open>now\<close>.
  \<open>UserOrbit p\<close> is the orbit controls moving the camera on user input.
\<close>

datatype event =
    SceneReady
  | PointerDown PointerEvent DOMRect "real \<times> real \<Rightarrow> obj_ref list" real
  | PointerMove PointerEvent DOMRect "real \<times> real \<Rightarrow> obj_ref list" real
  | PointerLeave real
  | HomeClick real
  | DebugClick real
  | ClearClick real
  | Frame real "ViewPose \<Rightarrow> ViewPose"
  | UserOrbit ViewPose

text \<open>
  The listeners of \<open>ScenePicker\<close> exist only when \<open>scene\<close> is set, those of
  \<open>HoverProbe\<close> only when \<open>scene\<close> is set and \<open>enabled\<close>; the Clear button is disabled
  while \<open>selectedId\<close> is falsy (\<open>null\<close> or the empty string).
\<close>

fun step :: "event \<Rightarrow> AppState \<times> Host \<Rightarrow> AppState \<times> Host" where
  "step SceneReady (a, h) =
     (a\<lparr>gltfScene := True\<rparr>, Model_highlight_effect (selectedId a) h)"
| "step (PointerDown ev rect ray now) (a, h) =
     (if \<not> gltfScene a then (a, h)
      else let a' = handlePointerDown ray (objs h) rect ev a in (a', commit now a a' h))"
| "step (PointerMove ev rect ray now) (a, h) =
     (if \<not> gltfScene a \<or> \<not> debugEnabled a then (a, h)
      else let a' = handlePointerMove ray (objs h) rect ev a in (a', commit now a a' h))"
| "step (PointerLeave now) (a, h) =
     (if \<not> gltfScene a \<or> \<not> debugEnabled a then (a, h)
      else let a' = handlePointerLeave a in (a', commit now a a' h))"
| "step (HomeClick now) (a, h) =
     (let a' = home_onClick (next_obj h) (defaultView h) a
      in (a', commit now a a' (h\<lparr>next_obj := next_obj h + 1\<rparr>)))"
| "step (DebugClick now) (a, h) =
     (let a' = debug_onClick a in (a', commit now a a' h))"
| "step (ClearClick now) (a, h) =
     (if selectedId a = None \<or> selectedId a = Some [] then (a, h)
      else let a' = clear_onClick a in (a', commit now a a' h))"
| "step (Frame now update) (a, h) = (a, run_frame update now h)"
| "step (UserOrbit p) (a, h) =
     (a, h\<lparr>camera_position := position p, controls_target := target p\<rparr>)"

text \<open>The rays handed to the raycaster while an event is handled.\<close>

fun rays_cast :: "event \<Rightarrow> AppState \<times> Host \<Rightarrow> (real \<times> real) list" where
  "rays_cast (PointerDown ev rect ray now) (a, h) =
     (if \<not> gltfScene a then [] else snd (pick ray (objs h) rect ev))"
| "rays_cast (PointerMove ev rect ray now) (a, h) =
     (if \<not> gltfScene a \<or> \<not> debugEnabled a then [] else snd (probe ray (objs h) rect ev))"
| "rays_cast e s = []"

subsection \<open>Reachable states\<close>

text \<open>
  A freshly loaded scene: materials are addressed within the store, no material carries
  the clone mark yet, and the objects have distinct uuids.
\<close>

definition wf_scene :: "Object3D list \<Rightarrow> Material list \<Rightarrow> bool" where
  "wf_scene os ms \<longleftrightarrow>
     list_all (\<lambda>ob. case material ob of None \<Rightarrow> True | Some r \<Rightarrow> r < length ms) os
     \<and> list_all (\<lambda>m. \<not> cloned m) ms
     \<and> distinct (map uuid os)"

text \<open>
  The state after the first render: the camera as given to \<open>Canvas\<close>, the orbit controls
  attached (refs are set before effects run) with their target at the origin, no
  selection, the model not loaded yet. The first run of the \<open>CameraFocus\<close> effect has
  returned early, without a cleanup function.
\<close>

definition default_pose :: ViewPose where
  "default_pose = \<lparr>position = \<lparr>vx = 0, vy = 1.2, vz = 3\<rparr>, target = \<lparr>vx = 0, vy = 0, vz = 0\<rparr>\<rparr>"

definition initial :: "Object3D list \<Rightarrow> Material list \<Rightarrow> AppState \<times> Host" where
  "initial os ms =
     (\<lparr>selectedId = None, selectedName = [], selectedMesh = None, gltfScene = False,
       showInstructions = True, debugEnabled = False,
       hoverInfo = \<lparr>hover_name = [], hover_x = 0, hover_y = 0, visible = False\<rparr>,
       resetKey = 0, resetView = None\<rparr>,
      \<lparr>controlsRef_current = True,
       camera_position = \<lparr>vx = 0, vy = 1.2, vz = 3\<rparr>,
       controls_target = \<lparr>vx = 0, vy = 0, vz = 0\<rparr>,
       defaultView = default_pose,
       rafRef = None, has_cleanup = False, raf_queue = [], next_raf = 1, next_obj = 0,
       objs = os, mats = ms\<rparr>)"

text \<open>
  A render surface of positive size: only then are the quotients in \<open>ndc\<close> the numbers
  that the code computes (a division by zero gives no finite number in JavaScript).
\<close>

definition rendered :: "DOMRect \<Rightarrow> bool" where
  "rendered rect \<longleftrightarrow> 0 < rect_width rect \<and> 0 < rect_height rect"

text \<open>
  A pointer event comes from a render surface of positive size, and its raycaster returns
  objects of the scene.
\<close>

fun event_ok :: "event \<Rightarrow> AppState \<times> Host \<Rightarrow> bool" where
  "event_ok (PointerDown ev rect ray now) (a, h) =
     (rendered rect \<and> (\<forall>p. list_all (\<lambda>i. i < length (objs h)) (ray p)))"
| "event_ok (PointerMove ev rect ray now) (a, h) =
     (rendered rect \<and> (\<forall>p. list_all (\<lambda>i. i < length (objs h)) (ray p)))"
| "event_ok e s = True"

inductive reachable :: "AppState \<times> Host \<Rightarrow> bool" where
  reachable_initial: "wf_scene os ms \<Longrightarrow> reachable (initial os ms)"
| reachable_step: "reachable s \<Longrightarrow> event_ok e s \<Longrightarrow> reachable (step e s)"

subsection \<open>Predicates used to state the properties\<close>

text \<open>The fields of an object that the application never writes.\<close>

definition static :: "Object3D \<Rightarrow> string \<times> string \<times> bool \<times> Box3" where
  "static ob = (uuid ob, name ob, isMesh ob, bbox ob)"

text \<open>Every material address of an object lies within the store.\<close>

definition refs_ok :: "Host \<Rightarrow> bool" where
  "refs_ok h \<longleftrightarrow>
     (\<forall>i<length (objs h). \<forall>r. material (objs h ! i) = Some r \<longrightarrow> r < length (mats h))"

text \<open>A material that carries the clone mark belongs to one object only.\<close>

definition clones_private :: "Host \<Rightarrow> bool" where
  "clones_private h \<longleftrightarrow>
     (\<forall>i<length (objs h). \<forall>j<length (objs h). \<forall>r.
        material (objs h ! i) = Some r \<and> material (objs h ! j) = Some r \<and> cloned (mats h ! r)
        \<longrightarrow> i = j)"

text \<open>
  The object at address \<open>i\<close> shows the highlight: its material has the highlight colour
  as emissive colour, at intensity 0.6.
\<close>

definition highlighted :: "Host \<Rightarrow> obj_ref \<Rightarrow> bool" where
  "highlighted h i \<longleftrightarrow>
     (case material (objs h ! i) of
        None \<Rightarrow> False
      | Some r \<Rightarrow> emissive (mats h ! r) = Some HIGHLIGHT_COLOR \<and> emissiveIntensity (mats h ! r) = 0.6)"

text \<open>The object has a single material with an emissive colour, so that it can show a highlight.\<close>

definition highlightable :: "Host \<Rightarrow> obj_ref \<Rightarrow> bool" where
  "highlightable h i \<longleftrightarrow>
     (case material (objs h ! i) of None \<Rightarrow> False | Some r \<Rightarrow> emissive (mats h ! r) \<noteq> None)"

text \<open>What the traversal leaves behind at object \<open>i\<close> when the selected id is \<open>sid\<close>.\<close>

definition lit_ok :: "string option \<Rightarrow> Host \<Rightarrow> obj_ref \<Rightarrow> bool" where
  "lit_ok sid h i \<longleftrightarrow>
     (isMesh (objs h ! i) \<longrightarrow>
        (case material (objs h ! i) of
           None \<Rightarrow> True
         | Some r \<Rightarrow>
             cloned (mats h ! r) \<and>
             (case emissive (mats h ! r) of
                None \<Rightarrow> True
              | Some c \<Rightarrow>
                  if Some (uuid (objs h ! i)) = sid
                  then c = HIGHLIGHT_COLOR \<and> emissiveIntensity (mats h ! r) = 0.6
                  else c = ''#000000'' \<and> emissiveIntensity (mats h ! r) = 0)))"

text \<open>
  At most one animation-frame callback is pending, and it is the one that
  \<open>rafRef.current\<close> names and that the registered cleanup will cancel.
\<close>

definition raf_inv :: "Host \<Rightarrow> bool" where
  "raf_inv h \<longleftrightarrow>
     0 < next_raf h \<and>
     (case raf_queue h of
        [] \<Rightarrow> True
      | e # es \<Rightarrow> es = [] \<and> rafRef h = Some (fst e) \<and> fst e \<noteq> 0 \<and> has_cleanup h)"

text \<open>The three state variables of the selection agree, and a selection excludes a reset request.\<close>

definition sel_inv :: "AppState \<Rightarrow> Host \<Rightarrow> bool" where
  "sel_inv a h \<longleftrightarrow>
     (case selectedMesh a of
        None \<Rightarrow> selectedId a = None \<and> selectedName a = []
      | Some m \<Rightarrow>
          m < length (objs h) \<and> isMesh (objs h ! m)
          \<and> selectedId a = Some (uuid (objs h ! m))
          \<and> selectedName a = display_name (objs h ! m)
          \<and> resetView a = None \<and> gltfScene a)"

definition app_inv :: "AppState \<times> Host \<Rightarrow> bool" where
  "app_inv s \<longleftrightarrow>
     raf_inv (snd s) \<and> controlsRef_current (snd s) \<and> defaultView (snd s) = default_pose
     \<and> refs_ok (snd s) \<and> clones_private (snd s) \<and> distinct (map uuid (objs (snd s)))
     \<and> sel_inv (fst s) (snd s)
     \<and> (gltfScene (fst s) \<longrightarrow> (\<forall>i<length (objs (snd s)). lit_ok (selectedId (fst s)) (snd s) i))"

text \<open>The size of an offset, measured along the axes (the larger of \<open>|dx|\<close> and \<open>|dy|\<close>).\<close>

definition offset_radius :: "real \<times> real \<Rightarrow> real" where
  "offset_radius d = max \<bar>fst d\<bar> \<bar>snd d\<bar>"

text \<open>The ray cast for an offset, and the first mesh among the objects a ray meets.\<close>

definition sample :: "DOMRect \<Rightarrow> PointerEvent \<Rightarrow> real \<times> real \<Rightarrow> real \<times> real" where
  "sample rect ev d =
     ndc rect (clientX ev - rect_left rect + fst d) (clientY ev - rect_top rect + snd d)"

definition hit_at :: "(real \<times> real \<Rightarrow> obj_ref list) \<Rightarrow> Object3D list \<Rightarrow> real \<times> real \<Rightarrow> obj_ref option" where
  "hit_at ray os p = find (\<lambda>i. isMesh (os ! i)) (ray p)"

text \<open>An animation frame, as opposed to an event of the user or of the loader.\<close>

fun is_frame :: "event \<Rightarrow> bool" where
  "is_frame (Frame now update) = True"
| "is_frame e = False"

text \<open>
  The transition that the \<open>CameraFocus\<close> effect creates at time \<open>now\<close> for the render
  \<open>a\<close>, seen from the host \<open>h\<close>: it starts at the live pose.
\<close>

definition new_transition :: "real \<Rightarrow> AppState \<Rightarrow> Host \<Rightarrow> Transition" where
  "new_transition now a h =
     \<lparr>startPos = camera_position h, startTarget = controls_target h,
      endPos = snd (the (end_pose a h)), endTarget = fst (the (end_pose a h)),
      startTime = now\<rparr>"

subsection \<open>A small scene and a few states, used to instantiate the theorems\<close>

definition example_molar :: Object3D where
  "example_molar =
     \<lparr>uuid = ''u-molar'', name = ''Molar'', isMesh = True, material = Some 0,
      bbox = \<lparr>box_min = \<lparr>vx = 1, vy = 0, vz = 0\<rparr>, box_max = \<lparr>vx = 3, vy = 2, vz = 2\<rparr>\<rparr>\<rparr>"

definition example_canine :: Object3D where
  "example_canine =
     \<lparr>uuid = ''u-canine'', name = ''Canine'', isMesh = True, material = Some 0,
      bbox = \<lparr>box_min = \<lparr>vx = - 1, vy = 0, vz = 0\<rparr>, box_max = \<lparr>vx = 0, vy = 2, vz = 2\<rparr>\<rparr>\<rparr>"

text \<open>Both teeth share one material when the scene is loaded.\<close>

definition example_material :: Material where
  "example_material = \<lparr>cloned = False, emissive = Some ''#000000'', emissiveIntensity = 1\<rparr>"

definition example_objs :: "Object3D list" where
  "example_objs = [example_molar, example_canine]"

definition example_mats :: "Material list" where
  "example_mats = [example_material]"

definition example_rect :: DOMRect where
  "example_rect = \<lparr>rect_left = 0, rect_top = 0, rect_width = 800, rect_height = 600\<rparr>"

definition example_event :: PointerEvent where
  "example_event = \<lparr>clientX = 100, clientY = 100\<rparr>"

text \<open>Raycasters: every ray meets the molar; every ray meets the canine; no ray meets anything.\<close>

definition ray_molar :: "real \<times> real \<Rightarrow> obj_ref list" where
  "ray_molar p = [0]"

definition ray_canine :: "real \<times> real \<Rightarrow> obj_ref list" where
  "ray_canine p = [1]"

definition ray_nothing :: "real \<times> real \<Rightarrow> obj_ref list" where
  "ray_nothing p = []"

text \<open>
  A thin canine: only rays to the right of the pointer at \<open>(100, 100)\<close> meet it, so that
  the exact pointer misses and the offset \<open>(6, 0)\<close> hits.
\<close>

definition ray_thin :: "real \<times> real \<Rightarrow> obj_ref list" where
  "ray_thin p = (if - 0.74 < fst p then [1] else [])"

text \<open>The scene loaded; then the molar picked at time 1000; then a frame at time 1300.\<close>

definition example_loaded :: "AppState \<times> Host" where
  "example_loaded = step SceneReady (initial example_objs example_mats)"

definition example_selected :: "AppState \<times> Host" where
  "example_selected = step (PointerDown example_event example_rect ray_molar 1000) example_loaded"

definition example_midway :: "AppState \<times> Host" where
  "example_midway = step (Frame 1300 (\<lambda>p. p)) example_selected"

definition example_arrived :: "AppState \<times> Host" where
  "example_arrived = step (Frame 1700 (\<lambda>p. p)) example_midway"

text \<open>The transition that the pick of the molar starts from the initial pose.\<close>

definition example_transition :: Transition where
  "example_transition =
     \<lparr>startPos = \<lparr>vx = 0, vy = 1.2, vz = 3\<rparr>, startTarget = \<lparr>vx = 0, vy = 0, vz = 0\<rparr>,
      endPos = \<lparr>vx = 2, vy = 2.2, vz = 4\<rparr>, endTarget = \<lparr>vx = 2, vy = 1, vz = 1\<rparr>,
      startTime = 1000\<rparr>"

text \<open>The Home button clicked at time 2000, while the transition to the molar is half way.\<close>

definition example_home :: "AppState \<times> Host" where
  "example_home = step (HomeClick 2000) example_midway"

text \<open>
  A scene with one tooth whose material has no emissive colour (an unlit material), and
  the state after that tooth has been picked at time 1000.
\<close>

definition example_unlit_objs :: "Object3D list" where
  "example_unlit_objs =
     [\<lparr>uuid = ''u-unlit'', name = ''Incisor'', isMesh = True, material = Some 0,
       bbox = \<lparr>box_min = \<lparr>vx = 0, vy = 0, vz = 0\<rparr>, box_max = \<lparr>vx = 1, vy = 1, vz = 1\<rparr>\<rparr>\<rparr>]"

definition example_unlit_mats :: "Material list" where
  "example_unlit_mats = [\<lparr>cloned = False, emissive = None, emissiveIntensity = 1\<rparr>]"

definition example_unlit_selected :: "AppState \<times> Host" where
  "example_unlit_selected =
     step (PointerDown example_event example_rect ray_molar 1000)
       (step SceneReady (initial example_unlit_objs example_unlit_mats))"

section \<open>Lemmas\<close>

subsection \<open>Interpolation and frames\<close>

lemma lerpVectors_0: "lerpVectors a b 0 = a"
  by (simp add: lerpVectors_def)

lemma lerpVectors_1: "lerpVectors a b 1 = b"
  by (simp add: lerpVectors_def)

lemma easeInOut_1: "easeInOut 1 = 1"
  by (simp add: easeInOut_def)

lemma easeInOut_0: "easeInOut 0 = 0"
  by (simp add: easeInOut_def)

lemma run_frame_single:
  "raf_queue h = [(k, tr)] \<Longrightarrow> run_frame update now h = animate update tr now (h\<lparr>raf_queue := []\<rparr>)"
  by (simp add: run_frame_def)

subsection \<open>The highlight traversal\<close>

lemma highlight_child_frame:
  "controlsRef_current (highlight_child sid i h) = controlsRef_current h"
  "camera_position (highlight_child sid i h) = camera_position h"
  "controls_target (highlight_child sid i h) = controls_target h"
  "defaultView (highlight_child sid i h) = defaultView h"
  "rafRef (highlight_child sid i h) = rafRef h"
  "has_cleanup (highlight_child sid i h) = has_cleanup h"
  "raf_queue (highlight_child sid i h) = raf_queue h"
  "next_raf (highlight_child sid i h) = next_raf h"
  "next_obj (highlight_child sid i h) = next_obj h"
  by (simp_all add: highlight_child_def Let_def split: option.splits)

lemma static_update: "i < length os \<Longrightarrow> map static (os[i := (os ! i)\<lparr>material := m\<rparr>]) = map static os"
  by (simp add: map_update static_def list_update_same_conv)

lemma highlight_child_static:
  "i < length (objs h) \<Longrightarrow> map static (objs (highlight_child sid i h)) = map static (objs h)"
  by (simp add: highlight_child_def Let_def static_update split: option.splits)

text \<open>The effect of one traversal step on a mesh with a material.\<close>

lemma highlight_child_skip:
  "\<not> isMesh (objs h ! i) \<or> material (objs h ! i) = None \<Longrightarrow> highlight_child sid i h = h"
  by (auto simp: highlight_child_def Let_def)

lemma highlight_child_mesh:
  assumes i: "i < length (objs h)" and m: "isMesh (objs h ! i)"
    and r0: "material (objs h ! i) = Some r0" and r0_ok: "r0 < length (mats h)"
  shows "\<exists>r. objs (highlight_child sid i h) = (objs h)[i := (objs h ! i)\<lparr>material := Some r\<rparr>]
     \<and> r < length (mats (highlight_child sid i h))
     \<and> length (mats h) \<le> length (mats (highlight_child sid i h))
     \<and> (r = r0 \<and> cloned (mats h ! r0) \<or> r = length (mats h) \<and> length (mats (highlight_child sid i h)) = Suc (length (mats h)))
     \<and> (\<forall>q<length (mats h). q \<noteq> r \<longrightarrow> mats (highlight_child sid i h) ! q = mats h ! q)
     \<and> cloned (mats (highlight_child sid i h) ! r)
     \<and> (case emissive (mats (highlight_child sid i h) ! r) of
           None \<Rightarrow> True
         | Some c \<Rightarrow>
             if Some (uuid (objs h ! i)) = sid
             then c = HIGHLIGHT_COLOR \<and> emissiveIntensity (mats (highlight_child sid i h) ! r) = 0.6
             else c = ''#000000'' \<and> emissiveIntensity (mats (highlight_child sid i h) ! r) = 0)"
proof (cases "cloned (mats h ! r0)")
  case True
  have same: "(objs h)[i := (objs h ! i)\<lparr>material := Some r0\<rparr>] = objs h"
    using r0 by (simp add: list_update_same_conv i)
  show ?thesis
    apply (rule exI [of _ r0])
    using True m r0 r0_ok same
    by (auto simp: highlight_child_def Let_def nth_list_update split: option.splits)
next
  case False
  show ?thesis
    apply (rule exI [of _ "length (mats h)"])
    using False m r0 r0_ok
    by (auto simp: highlight_child_def Let_def nth_list_update nth_append split: option.splits)
qed


lemma lit_ok_skip: "\<not> isMesh (objs h ! i) \<or> material (objs h ! i) = None \<Longrightarrow> lit_ok sid h i"
  by (auto simp: lit_ok_def)

lemma highlight_child_inv:
  assumes ro: "refs_ok h" and cp: "clones_private h" and lit: "\<forall>i<k. lit_ok sid h i"
    and k: "k < length (objs h)"
  shows "refs_ok (highlight_child sid k h) \<and> clones_private (highlight_child sid k h)
     \<and> (\<forall>i<Suc k. lit_ok sid (highlight_child sid k h) i)"
proof (cases "\<not> isMesh (objs h ! k) \<or> material (objs h ! k) = None")
  case True
  then have "highlight_child sid k h = h" by (rule highlight_child_skip)
  with True ro cp lit show ?thesis by (auto simp: less_Suc_eq lit_ok_skip)
next
  case False
  then obtain r0 where m: "isMesh (objs h ! k)" and r0: "material (objs h ! k) = Some r0" by auto
  have r0_ok: "r0 < length (mats h)" using ro k r0 by (auto simp: refs_ok_def)
  let ?h = "highlight_child sid k h"
  from highlight_child_mesh [OF k m r0 r0_ok, of sid]
  obtain r where os: "objs ?h = (objs h)[k := (objs h ! k)\<lparr>material := Some r\<rparr>]"
    and r_lt: "r < length (mats ?h)"
    and len: "length (mats h) \<le> length (mats ?h)"
    and which: "r = r0 \<and> cloned (mats h ! r0) \<or> r = length (mats h) \<and> length (mats ?h) = Suc (length (mats h))"
    and other: "\<forall>q<length (mats h). q \<noteq> r \<longrightarrow> mats ?h ! q = mats h ! q"
    and cl: "cloned (mats ?h ! r)"
    and em: "(case emissive (mats ?h ! r) of
           None \<Rightarrow> True
         | Some c \<Rightarrow>
             if Some (uuid (objs h ! k)) = sid
             then c = HIGHLIGHT_COLOR \<and> emissiveIntensity (mats ?h ! r) = 0.6
             else c = ''#000000'' \<and> emissiveIntensity (mats ?h ! r) = 0)"
    by blast
  have leno: "length (objs ?h) = length (objs h)" by (simp add: os)
  have mat_k: "material (objs ?h ! k) = Some r" using k by (simp add: os)
  have mat_j: "\<And>j. j < length (objs h) \<Longrightarrow> j \<noteq> k \<Longrightarrow> objs ?h ! j = objs h ! j"
    by (simp add: os)
  have fld_k: "isMesh (objs ?h ! k) = isMesh (objs h ! k)" "uuid (objs ?h ! k) = uuid (objs h ! k)"
    using k by (simp_all add: os)
  have priv: "\<And>j. j < length (objs h) \<Longrightarrow> j \<noteq> k \<Longrightarrow> material (objs h ! j) \<noteq> Some r"
  proof
    fix j assume j: "j < length (objs h)" "j \<noteq> k" and e: "material (objs h ! j) = Some r"
    from which show False
    proof
      assume "r = r0 \<and> cloned (mats h ! r0)"
      with cp j k r0 e show False by (auto simp: clones_private_def)
    next
      assume "r = length (mats h) \<and> length (mats ?h) = Suc (length (mats h))"
      with ro j e show False by (auto simp: refs_ok_def)
    qed
  qed
  have keep: "\<And>j q. j < length (objs h) \<Longrightarrow> j \<noteq> k \<Longrightarrow> material (objs h ! j) = Some q
                 \<Longrightarrow> q < length (mats h) \<and> mats ?h ! q = mats h ! q"
  proof -
    fix j q assume j: "j < length (objs h)" "j \<noteq> k" and e: "material (objs h ! j) = Some q"
    have "q < length (mats h)" using ro j e by (auto simp: refs_ok_def)
    moreover have "q \<noteq> r" using priv [OF j] e by auto
    ultimately show "q < length (mats h) \<and> mats ?h ! q = mats h ! q" using other by simp
  qed
  have 1: "refs_ok ?h"
    unfolding refs_ok_def leno
  proof (intro allI impI)
    fix j q assume j: "j < length (objs h)" and e: "material (objs ?h ! j) = Some q"
    show "q < length (mats ?h)"
    proof (cases "j = k")
      case True with e mat_k r_lt show ?thesis by simp
    next
      case False
      with keep [OF j False] e mat_j [OF j False] len show ?thesis by simp
    qed
  qed
  have 2: "clones_private ?h"
    unfolding clones_private_def leno
  proof (intro allI impI)
    fix i j q
    assume i: "i < length (objs h)" and j: "j < length (objs h)"
      and e: "material (objs ?h ! i) = Some q \<and> material (objs ?h ! j) = Some q \<and> cloned (mats ?h ! q)"
    show "i = j"
    proof (cases "i = k")
      case ik: True
      show ?thesis
      proof (cases "j = k")
        case True with ik show ?thesis by simp
      next
        case False
        with e ik mat_k mat_j [OF j False] priv [OF j False] show ?thesis by simp
      qed
    next
      case ik: False
      show ?thesis
      proof (cases "j = k")
        case True
        with e ik mat_k mat_j [OF i ik] priv [OF i ik] show ?thesis by simp
      next
        case False
        have "material (objs h ! i) = Some q" "material (objs h ! j) = Some q"
          using e mat_j [OF i ik] mat_j [OF j False] by simp_all
        moreover from this keep [OF i ik] e have "cloned (mats h ! q)" by simp
        ultimately show ?thesis using cp i j by (auto simp: clones_private_def)
      qed
    qed
  qed
  have 3: "\<forall>i<Suc k. lit_ok sid ?h i"
  proof (intro allI impI)
    fix i assume i: "i < Suc k"
    show "lit_ok sid ?h i"
    proof (cases "i = k")
      case True
      then show ?thesis using mat_k cl em fld_k by (auto simp: lit_ok_def split: option.splits)
    next
      case False
      with i have ik: "i < k" by simp
      then have il: "i < length (objs h)" using k by simp
      have o: "objs ?h ! i = objs h ! i" using mat_j [OF il False] .
      have "lit_ok sid h i" using lit ik by simp
      then show ?thesis
        using keep [OF il False] unfolding lit_ok_def o
        by (auto split: option.splits)
    qed
  qed
  from 1 2 3 show ?thesis by simp
qed


lemma static_length: "map static os' = map static os \<Longrightarrow> length os' = length os"
  by (metis length_map)

lemma static_nth:
  assumes "map static os' = map static os" and "i < length os"
  shows "uuid (os' ! i) = uuid (os ! i)" and "name (os' ! i) = name (os ! i)"
    and "isMesh (os' ! i) = isMesh (os ! i)" and "bbox (os' ! i) = bbox (os ! i)"
proof -
  have l: "i < length os'" using assms static_length by metis
  have "map static os' ! i = map static os ! i" using assms by simp
  then have "static (os' ! i) = static (os ! i)" using assms(2) l by simp
  then show "uuid (os' ! i) = uuid (os ! i)" and "name (os' ! i) = name (os ! i)"
    and "isMesh (os' ! i) = isMesh (os ! i)" and "bbox (os' ! i) = bbox (os ! i)"
    by (simp_all add: static_def)
qed

lemma static_uuids: "map static os' = map static os \<Longrightarrow> map uuid os' = map uuid os"
proof -
  assume a: "map static os' = map static os"
  have "map uuid os' = map fst (map static os')" by (simp add: static_def comp_def)
  also have "\<dots> = map fst (map static os)" using a by simp
  also have "\<dots> = map uuid os" by (simp add: static_def comp_def)
  finally show ?thesis .
qed

lemma fold_highlight_child:
  assumes "refs_ok h" and "clones_private h"
  shows "m \<le> length (objs h) \<Longrightarrow>
     refs_ok (fold (highlight_child sid) [0..<m] h)
     \<and> clones_private (fold (highlight_child sid) [0..<m] h)
     \<and> (\<forall>i<m. lit_ok sid (fold (highlight_child sid) [0..<m] h) i)
     \<and> map static (objs (fold (highlight_child sid) [0..<m] h)) = map static (objs h)"
proof (induction m)
  case 0
  with assms show ?case by simp
next
  case (Suc m)
  let ?g = "fold (highlight_child sid) [0..<m] h"
  from Suc have ih: "refs_ok ?g" "clones_private ?g" "\<forall>i<m. lit_ok sid ?g i"
    "map static (objs ?g) = map static (objs h)" by simp_all
  have m: "m < length (objs ?g)" using Suc.prems static_length [OF ih(4)] by simp
  have f: "fold (highlight_child sid) [0..<Suc m] h = highlight_child sid m ?g" by simp
  from highlight_child_inv [OF ih(1) ih(2) ih(3) m] highlight_child_static [OF m, of sid] ih(4)
  show ?case unfolding f by simp
qed

lemma fold_highlight_child_frame:
  "controlsRef_current (fold (highlight_child sid) xs h) = controlsRef_current h
   \<and> camera_position (fold (highlight_child sid) xs h) = camera_position h
   \<and> controls_target (fold (highlight_child sid) xs h) = controls_target h
   \<and> defaultView (fold (highlight_child sid) xs h) = defaultView h
   \<and> rafRef (fold (highlight_child sid) xs h) = rafRef h
   \<and> has_cleanup (fold (highlight_child sid) xs h) = has_cleanup h
   \<and> raf_queue (fold (highlight_child sid) xs h) = raf_queue h
   \<and> next_raf (fold (highlight_child sid) xs h) = next_raf h
   \<and> next_obj (fold (highlight_child sid) xs h) = next_obj h"
  by (induction xs arbitrary: h) (simp_all add: highlight_child_frame)

lemma Model_highlight_effect_frame:
  "controlsRef_current (Model_highlight_effect sid h) = controlsRef_current h"
  "camera_position (Model_highlight_effect sid h) = camera_position h"
  "controls_target (Model_highlight_effect sid h) = controls_target h"
  "defaultView (Model_highlight_effect sid h) = defaultView h"
  "rafRef (Model_highlight_effect sid h) = rafRef h"
  "has_cleanup (Model_highlight_effect sid h) = has_cleanup h"
  "raf_queue (Model_highlight_effect sid h) = raf_queue h"
  "next_raf (Model_highlight_effect sid h) = next_raf h"
  "next_obj (Model_highlight_effect sid h) = next_obj h"
  by (simp_all add: Model_highlight_effect_def fold_highlight_child_frame)

lemma Model_highlight_effect_heap:
  assumes "refs_ok h" and "clones_private h"
  shows "refs_ok (Model_highlight_effect sid h)"
    and "clones_private (Model_highlight_effect sid h)"
    and "\<forall>i<length (objs (Model_highlight_effect sid h)). lit_ok sid (Model_highlight_effect sid h) i"
    and "map static (objs (Model_highlight_effect sid h)) = map static (objs h)"
proof -
  let ?h = "Model_highlight_effect sid h"
  from fold_highlight_child [OF assms, of "length (objs h)" sid]
  have a: "refs_ok ?h" "clones_private ?h" "\<forall>i<length (objs h). lit_ok sid ?h i"
    "map static (objs ?h) = map static (objs h)"
    by (simp_all add: Model_highlight_effect_def)
  show "refs_ok ?h" "clones_private ?h" "map static (objs ?h) = map static (objs h)" using a by simp_all
  show "\<forall>i<length (objs ?h). lit_ok sid ?h i" using a(3) static_length [OF a(4)] by simp
qed

subsection \<open>The animation-frame queue\<close>

lemma CameraFocus_cleanup_frame:
  "objs (CameraFocus_cleanup h) = objs h" "mats (CameraFocus_cleanup h) = mats h"
  "controlsRef_current (CameraFocus_cleanup h) = controlsRef_current h"
  "camera_position (CameraFocus_cleanup h) = camera_position h"
  "controls_target (CameraFocus_cleanup h) = controls_target h"
  "defaultView (CameraFocus_cleanup h) = defaultView h"
  "next_raf (CameraFocus_cleanup h) = next_raf h"
  "next_obj (CameraFocus_cleanup h) = next_obj h"
  by (simp_all add: CameraFocus_cleanup_def cancelAnimationFrame_def split: option.splits)

lemma CameraFocus_effect_frame:
  "objs (CameraFocus_effect now a h) = objs h" "mats (CameraFocus_effect now a h) = mats h"
  "controlsRef_current (CameraFocus_effect now a h) = controlsRef_current h"
  "camera_position (CameraFocus_effect now a h) = camera_position h"
  "controls_target (CameraFocus_effect now a h) = controls_target h"
  "defaultView (CameraFocus_effect now a h) = defaultView h"
  "next_obj (CameraFocus_effect now a h) = next_obj h"
  by (simp_all add: CameraFocus_effect_def requestAnimationFrame_def split: option.splits)

lemma CameraFocus_cleanup_queue: "raf_inv h \<Longrightarrow> raf_queue (CameraFocus_cleanup h) = []"
  by (auto simp: raf_inv_def CameraFocus_cleanup_def cancelAnimationFrame_def split: list.splits option.splits)

lemma end_pose_Some:
  "selectedMesh a \<noteq> None \<or> resetView a \<noteq> None \<Longrightarrow>
   end_pose a h =
     Some (case resetView a of
             Some rv \<Rightarrow> (target (snd rv), position (snd rv))
           | None \<Rightarrow> (getCenter (bbox (objs h ! the (selectedMesh a))),
                        Vector3_add (getCenter (bbox (objs h ! the (selectedMesh a))))
                          (Vector3_sub (camera_position h) (controls_target h))))"
  by (auto simp: end_pose_def Let_def split: option.splits)

lemma CameraFocus_effect_queue:
  assumes "raf_queue h = []"
  shows "raf_queue (CameraFocus_effect now a h) =
     (if controlsRef_current h \<and> (selectedMesh a \<noteq> None \<or> resetView a \<noteq> None)
      then [(next_raf h,
             \<lparr>startPos = camera_position h, startTarget = controls_target h,
              endPos = snd (the (end_pose a h)), endTarget = fst (the (end_pose a h)),
              startTime = now\<rparr>)]
      else [])"
  using assms end_pose_Some [of a h]
  by (auto simp: CameraFocus_effect_def requestAnimationFrame_def split: option.splits)

lemma CameraFocus_effect_raf_inv:
  assumes "raf_queue h = []" and "0 < next_raf h"
  shows "raf_inv (CameraFocus_effect now a h)"
  using assms
  by (auto simp: raf_inv_def CameraFocus_effect_def requestAnimationFrame_def split: option.splits)

lemma CameraFocus_rerun_raf_inv:
  "raf_inv h \<Longrightarrow> raf_inv (CameraFocus_effect now a (CameraFocus_cleanup h))"
  by (rule CameraFocus_effect_raf_inv)
     (simp_all add: CameraFocus_cleanup_queue CameraFocus_cleanup_frame raf_inv_def)

lemma raf_inv_cong:
  "raf_queue h' = raf_queue h \<Longrightarrow> rafRef h' = rafRef h \<Longrightarrow> has_cleanup h' = has_cleanup h \<Longrightarrow>
   next_raf h' = next_raf h \<Longrightarrow> raf_inv h' = raf_inv h"
  by (simp add: raf_inv_def split: list.splits)

lemma raf_inv_highlight: "raf_inv (Model_highlight_effect sid h) = raf_inv h"
  by (rule raf_inv_cong) (simp_all add: Model_highlight_effect_frame)

lemma run_frame_raf_inv: "raf_inv h \<Longrightarrow> raf_inv (run_frame update now h)"
  by (auto simp: raf_inv_def run_frame_def animate_def Let_def requestAnimationFrame_def split: list.splits)

lemma fold_animate_frame:
  "objs (fold (\<lambda>e. animate update (snd e) now) xs g) = objs g
   \<and> mats (fold (\<lambda>e. animate update (snd e) now) xs g) = mats g
   \<and> controlsRef_current (fold (\<lambda>e. animate update (snd e) now) xs g) = controlsRef_current g
   \<and> defaultView (fold (\<lambda>e. animate update (snd e) now) xs g) = defaultView g
   \<and> next_obj (fold (\<lambda>e. animate update (snd e) now) xs g) = next_obj g"
  by (induction xs arbitrary: g) (simp_all add: animate_def Let_def requestAnimationFrame_def)

lemma run_frame_frame:
  "objs (run_frame update now h) = objs h" "mats (run_frame update now h) = mats h"
  "controlsRef_current (run_frame update now h) = controlsRef_current h"
  "defaultView (run_frame update now h) = defaultView h"
  "next_obj (run_frame update now h) = next_obj h"
  by (simp_all add: run_frame_def fold_animate_frame)

subsection \<open>Picking and the commit of a render\<close>

lemma pick_loop_eq:
  "pick_loop ray os rect bX bY ds cast =
     (case find (\<lambda>d. hit_at ray os (ndc rect (bX + fst d) (bY + snd d)) \<noteq> None) ds of
        None \<Rightarrow> (None, cast @ map (\<lambda>d. ndc rect (bX + fst d) (bY + snd d)) ds)
      | Some d \<Rightarrow>
          (hit_at ray os (ndc rect (bX + fst d) (bY + snd d)),
           cast @ map (\<lambda>d. ndc rect (bX + fst d) (bY + snd d))
                    (takeWhile (\<lambda>d. hit_at ray os (ndc rect (bX + fst d) (bY + snd d)) = None) ds)
                @ [ndc rect (bX + fst d) (bY + snd d)]))"
proof (induction ds arbitrary: cast)
  case Nil
  show ?case by simp
next
  case (Cons d ds)
  show ?case
  proof (cases "hit_at ray os (ndc rect (bX + fst d) (bY + snd d))")
    case None
    then show ?thesis using Cons [of "cast @ [ndc rect (bX + fst d) (bY + snd d)]"]
      by (simp add: hit_at_def Let_def split: option.splits)
  next
    case (Some m)
    then show ?thesis by (simp add: hit_at_def Let_def)
  qed
qed

lemma pick_eq:
  "pick ray os rect ev =
     (case find (\<lambda>d. hit_at ray os (sample rect ev d) \<noteq> None) offsets of
        None \<Rightarrow> (None, map (sample rect ev) offsets)
      | Some d \<Rightarrow>
          (hit_at ray os (sample rect ev d),
           map (sample rect ev) (takeWhile (\<lambda>d. hit_at ray os (sample rect ev d) = None) offsets)
             @ [sample rect ev d]))"
  unfolding pick_def Let_def pick_loop_eq sample_def by (simp split: option.splits)

lemma hit_at_Some: "hit_at ray os p = Some m \<Longrightarrow> m \<in> set (ray p) \<and> isMesh (os ! m)"
  by (auto simp: hit_at_def find_Some_iff)

lemma pick_Some:
  assumes "fst (pick ray os rect ev) = Some m"
  shows "\<exists>p. m \<in> set (ray p) \<and> isMesh (os ! m)"
proof (cases "find (\<lambda>d. hit_at ray os (sample rect ev d) \<noteq> None) offsets")
  case None
  with assms show ?thesis by (simp add: pick_eq)
next
  case (Some d)
  with assms have "hit_at ray os (sample rect ev d) = Some m" by (simp add: pick_eq)
  then show ?thesis using hit_at_Some by blast
qed

lemma heap_cong:
  assumes "objs h' = objs h" and "mats h' = mats h"
  shows "refs_ok h' = refs_ok h" and "clones_private h' = clones_private h"
    and "lit_ok sid h' i = lit_ok sid h i"
  unfolding refs_ok_def clones_private_def lit_ok_def assms by (rule refl)+

lemma sel_inv_static:
  assumes "sel_inv a h" and "map static (objs h') = map static (objs h)"
  shows "sel_inv a h'"
proof (cases "selectedMesh a")
  case None
  with assms show ?thesis by (simp add: sel_inv_def)
next
  case (Some m)
  with assms(1) have m: "m < length (objs h)" by (simp add: sel_inv_def)
  have "m < length (objs h')" using m static_length [OF assms(2)] by simp
  then show ?thesis
    using assms(1) Some static_nth [OF assms(2) m]
    by (simp add: sel_inv_def display_name_def)
qed

lemma commit_heap:
  "objs (commit now a a' h) =
     objs (if gltfScene a \<and> selectedId a' \<noteq> selectedId a then Model_highlight_effect (selectedId a') h else h)"
  "mats (commit now a a' h) =
     mats (if gltfScene a \<and> selectedId a' \<noteq> selectedId a then Model_highlight_effect (selectedId a') h else h)"
  by (simp_all add: commit_def Let_def CameraFocus_effect_frame CameraFocus_cleanup_frame)

lemma commit_frame:
  "controlsRef_current (commit now a a' h) = controlsRef_current h"
  "defaultView (commit now a a' h) = defaultView h"
  "camera_position (commit now a a' h) = camera_position h"
  "controls_target (commit now a a' h) = controls_target h"
  "next_obj (commit now a a' h) = next_obj h"
  by (simp_all add: commit_def Let_def CameraFocus_effect_frame CameraFocus_cleanup_frame
        Model_highlight_effect_frame)

lemma commit_raf_inv: "raf_inv h \<Longrightarrow> raf_inv (commit now a a' h)"
  by (simp add: commit_def Let_def CameraFocus_rerun_raf_inv raf_inv_highlight)

lemma commit_static:
  assumes "refs_ok h" and "clones_private h"
  shows "map static (objs (commit now a a' h)) = map static (objs h)"
  using Model_highlight_effect_heap(4) [OF assms] by (simp add: commit_heap)

lemma commit_inv:
  assumes inv: "app_inv (a, h)" and g: "gltfScene a' = gltfScene a" and s: "sel_inv a' h"
  shows "app_inv (a', commit now a a' h)"
proof -
  let ?h1 = "if gltfScene a \<and> selectedId a' \<noteq> selectedId a
             then Model_highlight_effect (selectedId a') h else h"
  let ?h = "commit now a a' h"
  from inv have ro: "refs_ok h" and cp: "clones_private h" and ri: "raf_inv h"
    and d: "distinct (map uuid (objs h))"
    and lit: "gltfScene a \<longrightarrow> (\<forall>i<length (objs h). lit_ok (selectedId a) h i)"
    and c: "controlsRef_current h" and dv: "defaultView h = default_pose"
    by (simp_all add: app_inv_def)
  have o: "objs ?h = objs ?h1" and m: "mats ?h = mats ?h1" by (rule commit_heap)+
  have st: "map static (objs ?h) = map static (objs h)" by (rule commit_static [OF ro cp])
  have 1: "refs_ok ?h1" "clones_private ?h1"
    using Model_highlight_effect_heap(1,2) [OF ro cp] ro cp by simp_all
  have 2: "gltfScene a \<longrightarrow> (\<forall>i<length (objs ?h1). lit_ok (selectedId a') ?h1 i)"
    using Model_highlight_effect_heap(3) [OF ro cp, of "selectedId a'"] lit by auto
  have 3: "refs_ok ?h" "clones_private ?h"
    using 1 heap_cong(1,2) [OF o m] by simp_all
  have 4: "gltfScene a' \<longrightarrow> (\<forall>i<length (objs ?h). lit_ok (selectedId a') ?h i)"
    using 2 g heap_cong(3) [OF o m] o by simp
  have 5: "distinct (map uuid (objs ?h))" using d static_uuids [OF st] by simp
  have 6: "sel_inv a' ?h" using sel_inv_static [OF s st] .
  show ?thesis
    using 3 4 5 6 commit_raf_inv [OF ri] c dv by (simp add: app_inv_def commit_frame)
qed

lemma find_first:
  "k < length xs \<Longrightarrow> P (xs ! k) \<Longrightarrow> \<forall>j<k. \<not> P (xs ! j) \<Longrightarrow>
   find P xs = Some (xs ! k) \<and> takeWhile (\<lambda>x. \<not> P x) xs = take k xs"
proof (induction xs arbitrary: k)
  case Nil
  then show ?case by simp
next
  case (Cons x xs)
  show ?case
  proof (cases k)
    case 0
    with Cons.prems show ?thesis by simp
  next
    case (Suc n)
    have x: "\<not> P x" using Cons.prems(3) Suc by auto
    have "\<forall>j<n. \<not> P (xs ! j)" using Cons.prems(3) Suc by auto
    with Cons.IH [of n] Cons.prems Suc have "find P xs = Some (xs ! n) \<and> takeWhile (\<lambda>x. \<not> P x) xs = take n xs"
      by simp
    with x Suc show ?thesis by simp
  qed
qed

lemma find_none: "\<forall>j<length xs. \<not> P (xs ! j) \<Longrightarrow> find P xs = None"
  by (simp add: find_None_iff in_set_conv_nth) blast

lemma pick_first_hit:
  assumes k: "k < length offsets"
    and hit: "hit_at ray os (sample rect ev (offsets ! k)) \<noteq> None"
    and before: "\<forall>j<k. hit_at ray os (sample rect ev (offsets ! j)) = None"
  shows "pick ray os rect ev =
     (hit_at ray os (sample rect ev (offsets ! k)), map (sample rect ev) (take (Suc k) offsets))"
proof -
  from find_first [of k offsets "\<lambda>d. hit_at ray os (sample rect ev d) \<noteq> None"] k hit before
  have f: "find (\<lambda>d. hit_at ray os (sample rect ev d) \<noteq> None) offsets = Some (offsets ! k)"
    and t: "takeWhile (\<lambda>d. hit_at ray os (sample rect ev d) = None) offsets = take k offsets"
    by simp_all
  show ?thesis
    unfolding pick_eq f t using k by (simp add: take_Suc_conv_app_nth)
qed

lemma pick_all_miss:
  assumes "\<forall>j<length offsets. hit_at ray os (sample rect ev (offsets ! j)) = None"
  shows "pick ray os rect ev = (None, map (sample rect ev) offsets)"
proof -
  from find_none [of offsets "\<lambda>d. hit_at ray os (sample rect ev d) \<noteq> None"] assms
  have "find (\<lambda>d. hit_at ray os (sample rect ev d) \<noteq> None) offsets = None" by simp
  then show ?thesis unfolding pick_eq by simp
qed

lemma pick_None:
  assumes "fst (pick ray os rect ev) = None"
  shows "\<forall>j<length offsets. hit_at ray os (sample rect ev (offsets ! j)) = None"
proof (cases "find (\<lambda>d. hit_at ray os (sample rect ev d) \<noteq> None) offsets")
  case None
  then have "\<forall>d\<in>set offsets. hit_at ray os (sample rect ev d) = None"
    by (simp add: find_None_iff split_paired_all)
  then show ?thesis using nth_mem by blast
next
  case (Some d)
  then have "hit_at ray os (sample rect ev d) \<noteq> None" by (auto simp: find_Some_iff)
  with assms Some show ?thesis by (simp add: pick_eq)
qed

lemma handlePointerDown_selectedMesh:
  "selectedMesh (handlePointerDown ray os rect ev a) = fst (pick ray os rect ev)"
  by (simp add: handlePointerDown_def Let_def onSelect_def onMiss_def onFirstInteract_def split: option.splits)

lemma commit_same:
  "selectedId a' = selectedId a \<Longrightarrow> \<not> CameraFocus_deps_changed a a' \<Longrightarrow> commit now a a' h = h"
  by (simp add: commit_def)

subsection \<open>Invariants of reachable states\<close>

lemma initial_inv:
  assumes "wf_scene os ms"
  shows "app_inv (initial os ms)"
proof -
  have r: "refs_ok (snd (initial os ms))"
    using assms
    by (auto simp: wf_scene_def refs_ok_def initial_def list_all_length split: option.splits)
  have c: "clones_private (snd (initial os ms))"
  proof -
    have "\<And>i r. i < length os \<Longrightarrow> material (os ! i) = Some r \<Longrightarrow> \<not> cloned (ms ! r)"
      using assms
      by (auto simp: wf_scene_def list_all_length split: option.splits)
    then show ?thesis by (auto simp: clones_private_def initial_def)
  qed
  show ?thesis
    using assms r c
    by (simp add: app_inv_def) (simp add: initial_def raf_inv_def sel_inv_def wf_scene_def)
qed

lemma app_inv_cong:
  assumes "app_inv (a, h)"
    and "objs h' = objs h" and "mats h' = mats h"
    and "raf_queue h' = raf_queue h" and "rafRef h' = rafRef h"
    and "has_cleanup h' = has_cleanup h" and "next_raf h' = next_raf h"
    and "controlsRef_current h' = controlsRef_current h" and "defaultView h' = defaultView h"
  shows "app_inv (a, h')"
proof -
  have "sel_inv a h'" using assms(1) sel_inv_static [of a h h'] assms(2) by (simp add: app_inv_def)
  then show ?thesis
    using assms(1) heap_cong [OF assms(2,3)] raf_inv_cong [OF assms(4,5,6,7)] assms(2,8,9)
    by (simp add: app_inv_def)
qed

lemma app_inv_next_obj: "app_inv (a, h) \<Longrightarrow> app_inv (a, h\<lparr>next_obj := n\<rparr>)"
  by (erule app_inv_cong) simp_all

lemma app_inv_orbit:
  "app_inv (a, h) \<Longrightarrow> app_inv (a, h\<lparr>camera_position := p, controls_target := q\<rparr>)"
  by (erule app_inv_cong) simp_all

lemma app_inv_frame:
  assumes "app_inv (a, h)"
  shows "app_inv (a, run_frame update now h)"
proof -
  have o: "objs (run_frame update now h) = objs h" and m: "mats (run_frame update now h) = mats h"
    by (rule run_frame_frame)+
  have "sel_inv a (run_frame update now h)"
    using assms sel_inv_static [of a h "run_frame update now h"] o by (simp add: app_inv_def)
  then show ?thesis
    using assms heap_cong [OF o m] run_frame_raf_inv [of h update now]
    by (simp add: app_inv_def run_frame_frame)
qed

lemma app_inv_scene_ready:
  assumes "app_inv (a, h)"
  shows "app_inv (a\<lparr>gltfScene := True\<rparr>, Model_highlight_effect (selectedId a) h)"
proof -
  let ?h = "Model_highlight_effect (selectedId a) h"
  from assms have ro: "refs_ok h" and cp: "clones_private h" by (simp_all add: app_inv_def)
  note hp = Model_highlight_effect_heap [OF ro cp, of "selectedId a"]
  have s: "sel_inv (a\<lparr>gltfScene := True\<rparr>) h"
    using assms by (auto simp: app_inv_def sel_inv_def split: option.splits)
  have "distinct (map uuid (objs ?h))" using assms static_uuids [OF hp(4)] by (simp add: app_inv_def)
  then show ?thesis
    using assms hp(1,2,3) sel_inv_static [OF s hp(4)]
    by (simp add: app_inv_def raf_inv_highlight Model_highlight_effect_frame)
qed

lemma sel_inv_fields:
  assumes "selectedMesh a' = selectedMesh a" and "selectedId a' = selectedId a"
    and "selectedName a' = selectedName a" and "resetView a' = resetView a"
    and "gltfScene a' = gltfScene a"
  shows "sel_inv a' h = sel_inv a h"
  unfolding sel_inv_def assms by (rule refl)

lemma sel_inv_pointer_down:
  assumes "sel_inv a h" and "gltfScene a" and "\<forall>p. list_all (\<lambda>i. i < length (objs h)) (ray p)"
  shows "sel_inv (handlePointerDown ray (objs h) rect ev a) h"
proof (cases "fst (pick ray (objs h) rect ev)")
  case None
  then show ?thesis by (simp add: handlePointerDown_def Let_def onMiss_def onFirstInteract_def sel_inv_def)
next
  case (Some m)
  from pick_Some [OF Some] obtain p where "m \<in> set (ray p)" and im: "isMesh (objs h ! m)" by blast
  with assms(3) have "m < length (objs h)" by (cases p) (auto simp: list_all_iff)
  with Some im assms(2) show ?thesis
    by (simp add: handlePointerDown_def Let_def onSelect_def onFirstInteract_def sel_inv_def)
qed

lemma step_inv:
  assumes "app_inv s" and "event_ok e s"
  shows "app_inv (step e s)"
proof -
  obtain a h where s: "s = (a, h)" by (cases s)
  from assms(1) have si: "sel_inv a h" by (simp add: s app_inv_def)
  show ?thesis
  proof (cases e)
    case SceneReady
    then show ?thesis using assms(1) app_inv_scene_ready unfolding s by simp
  next
    case (PointerDown ev rect ray now)
    show ?thesis
    proof (cases "gltfScene a")
      case False
      then show ?thesis using assms(1) PointerDown s by simp
    next
      case True
      have "sel_inv (handlePointerDown ray (objs h) rect ev a) h"
        using sel_inv_pointer_down [OF si True] assms(2) PointerDown s by simp
      moreover have "gltfScene (handlePointerDown ray (objs h) rect ev a) = gltfScene a"
        by (simp add: handlePointerDown_def Let_def onSelect_def onMiss_def onFirstInteract_def split: option.splits)
      ultimately show ?thesis
        using commit_inv [of a h "handlePointerDown ray (objs h) rect ev a" now] assms(1) True
        by (simp add: PointerDown s Let_def)
    qed
  next
    case (PointerMove ev rect ray now)
    have "sel_inv (handlePointerMove ray (objs h) rect ev a) h = sel_inv a h"
      by (rule sel_inv_fields)
         (simp_all add: handlePointerMove_def onHover_def onLeave_def split: option.splits)
    then have "sel_inv (handlePointerMove ray (objs h) rect ev a) h" using si by simp
    moreover have "gltfScene (handlePointerMove ray (objs h) rect ev a) = gltfScene a"
      by (simp add: handlePointerMove_def onHover_def onLeave_def split: option.splits)
    ultimately show ?thesis
      using commit_inv [of a h "handlePointerMove ray (objs h) rect ev a" now] assms(1)
      by (simp add: PointerMove s Let_def)
  next
    case (PointerLeave now)
    have "sel_inv (handlePointerLeave a) h = sel_inv a h"
      by (rule sel_inv_fields) (simp_all add: handlePointerLeave_def onLeave_def)
    then have "sel_inv (handlePointerLeave a) h" using si by simp
    then show ?thesis
      using commit_inv [of a h "handlePointerLeave a" now] assms(1)
      by (simp add: PointerLeave s Let_def handlePointerLeave_def onLeave_def)
  next
    case (HomeClick now)
    have "sel_inv (home_onClick (next_obj h) (defaultView h) a) (h\<lparr>next_obj := next_obj h + 1\<rparr>)"
      by (simp add: home_onClick_def sel_inv_def)
    then show ?thesis
      using commit_inv [of a "h\<lparr>next_obj := next_obj h + 1\<rparr>" "home_onClick (next_obj h) (defaultView h) a" now]
        app_inv_next_obj [of a h] assms(1)
      by (simp add: HomeClick s Let_def home_onClick_def)
  next
    case (DebugClick now)
    have "sel_inv (debug_onClick a) h = sel_inv a h"
      by (rule sel_inv_fields) (simp_all add: debug_onClick_def)
    then have "sel_inv (debug_onClick a) h" using si by simp
    then show ?thesis
      using commit_inv [of a h "debug_onClick a" now] assms(1)
      by (simp add: DebugClick s Let_def debug_onClick_def)
  next
    case (ClearClick now)
    have "sel_inv (clear_onClick a) h" by (simp add: clear_onClick_def sel_inv_def)
    then show ?thesis
      using commit_inv [of a h "clear_onClick a" now] assms(1)
      by (simp add: ClearClick s Let_def clear_onClick_def)
  next
    case (Frame now update)
    then show ?thesis using app_inv_frame assms(1) unfolding s by simp
  next
    case (UserOrbit p)
    then show ?thesis using app_inv_orbit assms(1) unfolding s by simp
  qed
qed

lemma reachable_inv: "reachable s \<Longrightarrow> app_inv s"
  by (induction rule: reachable.induct) (simp_all add: initial_inv step_inv)

subsection \<open>Transitions started by a commit\<close>

lemma end_pose_static:
  assumes "map static (objs h') = map static (objs h)"
    and "camera_position h' = camera_position h" and "controls_target h' = controls_target h"
    and "\<And>m. selectedMesh a = Some m \<Longrightarrow> m < length (objs h)"
  shows "end_pose a h' = end_pose a h"
proof (cases "selectedMesh a")
  case None
  then show ?thesis by (simp add: end_pose_def split: option.splits)
next
  case (Some m)
  then have "bbox (objs h' ! m) = bbox (objs h ! m)"
    using static_nth(4) [OF assms(1)] assms(4) by simp
  with Some assms(2,3) show ?thesis by (simp add: end_pose_def Let_def split: option.splits)
qed

lemma CameraFocus_rerun_queue:
  assumes "raf_inv h"
  shows "raf_queue (CameraFocus_effect now a (CameraFocus_cleanup h)) =
     (if controlsRef_current h \<and> (selectedMesh a \<noteq> None \<or> resetView a \<noteq> None)
      then [(next_raf h, new_transition now a h)] else [])"
proof -
  have e: "end_pose a (CameraFocus_cleanup h) = end_pose a h"
    unfolding end_pose_def CameraFocus_cleanup_frame by (rule refl)
  show ?thesis
    using CameraFocus_effect_queue [OF CameraFocus_cleanup_queue [OF assms], of now a]
    by (simp add: CameraFocus_cleanup_frame new_transition_def e)
qed

lemma commit_queue:
  assumes r: "raf_inv h" and ro: "refs_ok h" and cp: "clones_private h"
    and m: "\<And>m. selectedMesh a' = Some m \<Longrightarrow> m < length (objs h)"
  shows "raf_queue (commit now a a' h) =
     (if CameraFocus_deps_changed a a'
      then (if controlsRef_current h \<and> (selectedMesh a' \<noteq> None \<or> resetView a' \<noteq> None)
            then [(next_raf h, new_transition now a' h)] else [])
      else raf_queue h)"
proof -
  define h1 where "h1 = (if gltfScene a \<and> selectedId a' \<noteq> selectedId a
             then Model_highlight_effect (selectedId a') h else h)"
  have c: "commit now a a' h =
     (if CameraFocus_deps_changed a a' then CameraFocus_effect now a' (CameraFocus_cleanup h1) else h1)"
    by (simp add: commit_def Let_def h1_def)
  have r1: "raf_inv h1" using r by (simp add: raf_inv_highlight h1_def)
  have st: "map static (objs h1) = map static (objs h)"
    using Model_highlight_effect_heap(4) [OF ro cp] by (simp add: h1_def)
  have f: "camera_position h1 = camera_position h" "controls_target h1 = controls_target h"
    "controlsRef_current h1 = controlsRef_current h" "next_raf h1 = next_raf h"
    "raf_queue h1 = raf_queue h"
    by (simp_all add: Model_highlight_effect_frame h1_def)
  have e: "end_pose a' h1 = end_pose a' h"
    by (rule end_pose_static [OF st f(1) f(2) m])
  have n: "new_transition now a' h1 = new_transition now a' h"
    by (simp add: new_transition_def e f)
  show ?thesis
  proof (cases "CameraFocus_deps_changed a a'")
    case True
    then show ?thesis
      unfolding c using CameraFocus_rerun_queue [OF r1, of now a'] by (simp add: f n)
  next
    case False
    then show ?thesis unfolding c by (simp add: f)
  qed
qed

lemma sel_inv_valid: "sel_inv a h \<Longrightarrow> selectedMesh a = Some m \<Longrightarrow> m < length (objs h)"
  by (simp add: sel_inv_def)

text \<open>What an event other than a frame can do to the pending callbacks.\<close>

lemma step_queue:
  assumes inv: "app_inv (a, h)" and ok: "event_ok e (a, h)" and nf: "\<not> is_frame e"
  shows "raf_queue (snd (step e (a, h))) = raf_queue h
    \<or> raf_queue (snd (step e (a, h))) = []
    \<or> (\<exists>tr. raf_queue (snd (step e (a, h))) = [(next_raf h, tr)]
          \<and> startPos tr = camera_position h \<and> startTarget tr = controls_target h)"
proof -
  from inv have r: "raf_inv h" and ro: "refs_ok h" and cp: "clones_private h" and si: "sel_inv a h"
    by (simp_all add: app_inv_def)
  have via_commit: "\<And>a' now g. raf_inv g \<Longrightarrow> refs_ok g \<Longrightarrow> clones_private g \<Longrightarrow> sel_inv a' g \<Longrightarrow>
      raf_queue g = raf_queue h \<Longrightarrow> next_raf g = next_raf h \<Longrightarrow>
      camera_position g = camera_position h \<Longrightarrow> controls_target g = controls_target h \<Longrightarrow>
      raf_queue (commit now a a' g) = raf_queue h
      \<or> raf_queue (commit now a a' g) = []
      \<or> (\<exists>tr. raf_queue (commit now a a' g) = [(next_raf h, tr)]
          \<and> startPos tr = camera_position h \<and> startTarget tr = controls_target h)"
  proof -
    fix a' now g
    assume g: "raf_inv g" "refs_ok g" "clones_private g" "sel_inv a' g"
      and e: "raf_queue g = raf_queue h" "next_raf g = next_raf h"
        "camera_position g = camera_position h" "controls_target g = controls_target h"
    have "raf_queue (commit now a a' g) =
     (if CameraFocus_deps_changed a a'
      then (if controlsRef_current g \<and> (selectedMesh a' \<noteq> None \<or> resetView a' \<noteq> None)
            then [(next_raf g, new_transition now a' g)] else [])
      else raf_queue g)"
      by (rule commit_queue [OF g(1) g(2) g(3)]) (rule sel_inv_valid [OF g(4)])
    then show "raf_queue (commit now a a' g) = raf_queue h
      \<or> raf_queue (commit now a a' g) = []
      \<or> (\<exists>tr. raf_queue (commit now a a' g) = [(next_raf h, tr)]
          \<and> startPos tr = camera_position h \<and> startTarget tr = controls_target h)"
      using e by (auto simp: new_transition_def)
  qed
  show ?thesis
  proof (cases e)
    case SceneReady
    then show ?thesis by (simp add: Model_highlight_effect_frame)
  next
    case (PointerDown ev rect ray now)
    show ?thesis
    proof (cases "gltfScene a")
      case False
      then show ?thesis using PointerDown by simp
    next
      case True
      have "sel_inv (handlePointerDown ray (objs h) rect ev a) h"
        using sel_inv_pointer_down [OF si True] ok PointerDown by simp
      from via_commit [OF r ro cp this, of now] show ?thesis
        using True PointerDown by (simp add: Let_def)
    qed
  next
    case (PointerMove ev rect ray now)
    have "commit now a (handlePointerMove ray (objs h) rect ev a) h = h"
      by (rule commit_same)
         (simp_all add: handlePointerMove_def onHover_def onLeave_def CameraFocus_deps_changed_def
            split: option.splits)
    then show ?thesis using PointerMove by (simp add: Let_def)
  next
    case (PointerLeave now)
    have "commit now a (handlePointerLeave a) h = h"
      by (rule commit_same)
         (simp_all add: handlePointerLeave_def onLeave_def CameraFocus_deps_changed_def)
    then show ?thesis using PointerLeave by (simp add: Let_def)
  next
    case (HomeClick now)
    let ?g = "h\<lparr>next_obj := next_obj h + 1\<rparr>"
    have i: "app_inv (a, ?g)" using inv by (rule app_inv_next_obj)
    have s: "sel_inv (home_onClick (next_obj h) (defaultView h) a) ?g"
      by (simp add: home_onClick_def sel_inv_def)
    from i have "raf_inv ?g" "refs_ok ?g" "clones_private ?g" by (simp_all add: app_inv_def)
    from via_commit [OF this s, of now] show ?thesis
      using HomeClick by (simp add: Let_def)
  next
    case (DebugClick now)
    have "commit now a (debug_onClick a) h = h"
      by (rule commit_same) (simp_all add: debug_onClick_def CameraFocus_deps_changed_def)
    then show ?thesis using DebugClick by (simp add: Let_def)
  next
    case (ClearClick now)
    have "sel_inv (clear_onClick a) h" by (simp add: clear_onClick_def sel_inv_def)
    from via_commit [OF r ro cp this, of now] show ?thesis
      using ClearClick by (simp add: Let_def)
  next
    case (Frame now update)
    with nf show ?thesis by simp
  next
    case (UserOrbit p)
    then show ?thesis by simp
  qed
qed

lemma reachable_facts:
  assumes "reachable (a, h)"
  shows "raf_inv h" and "refs_ok h" and "clones_private h" and "sel_inv a h"
    and "controlsRef_current h" and "defaultView h = default_pose"
  using reachable_inv [OF assms] by (simp_all add: app_inv_def)

lemma handlePointerDown_hit:
  assumes "fst (pick ray os rect ev) = Some m"
  shows "selectedMesh (handlePointerDown ray os rect ev a) = Some m"
    and "selectedId (handlePointerDown ray os rect ev a) = Some (uuid (os ! m))"
    and "selectedName (handlePointerDown ray os rect ev a) = display_name (os ! m)"
    and "resetView (handlePointerDown ray os rect ev a) = None"
    and "resetKey (handlePointerDown ray os rect ev a) = resetKey a"
  using assms by (simp_all add: handlePointerDown_def Let_def onSelect_def onFirstInteract_def)

lemma frame_in_flight:
  assumes q: "raf_queue h = [(k, A)]" and t: "now - startTime A < 600"
  shows "raf_queue (run_frame update now h) = [(next_raf h, A)]"
    and "next_raf (run_frame update now h) = Suc (next_raf h)"
    and "camera_position (run_frame update now h) =
           position (update \<lparr>position = lerpVectors (startPos A) (endPos A) (easeInOut ((now - startTime A) / 600)),
                             target = lerpVectors (startTarget A) (endTarget A) (easeInOut ((now - startTime A) / 600))\<rparr>)"
    and "controls_target (run_frame update now h) =
           target (update \<lparr>position = lerpVectors (startPos A) (endPos A) (easeInOut ((now - startTime A) / 600)),
                           target = lerpVectors (startTarget A) (endTarget A) (easeInOut ((now - startTime A) / 600))\<rparr>)"
proof -
  have m: "min ((now - startTime A) / 600) 1 = (now - startTime A) / 600" using t by simp
  show "raf_queue (run_frame update now h) = [(next_raf h, A)]"
    and "next_raf (run_frame update now h) = Suc (next_raf h)"
    and "camera_position (run_frame update now h) =
           position (update \<lparr>position = lerpVectors (startPos A) (endPos A) (easeInOut ((now - startTime A) / 600)),
                             target = lerpVectors (startTarget A) (endTarget A) (easeInOut ((now - startTime A) / 600))\<rparr>)"
    and "controls_target (run_frame update now h) =
           target (update \<lparr>position = lerpVectors (startPos A) (endPos A) (easeInOut ((now - startTime A) / 600)),
                           target = lerpVectors (startTarget A) (endTarget A) (easeInOut ((now - startTime A) / 600))\<rparr>)"
    using t by (simp_all add: run_frame_single [OF q] animate_def Let_def duration_def m requestAnimationFrame_def)
qed

subsection \<open>Highlight and selection\<close>

lemma lit_ok_highlighted:
  assumes "lit_ok sid h i" and "isMesh (objs h ! i)"
  shows "highlighted h i \<longleftrightarrow> Some (uuid (objs h ! i)) = sid \<and> highlightable h i"
  using assms
  by (auto simp: lit_ok_def highlighted_def highlightable_def HIGHLIGHT_COLOR_def split: option.splits if_splits)

lemma distinct_uuid_index:
  assumes "distinct (map uuid os)" and "i < length os" and "j < length os"
    and "uuid (os ! i) = uuid (os ! j)"
  shows "i = j"
proof -
  have "map uuid os ! i = map uuid os ! j" using assms by simp
  moreover have "i < length (map uuid os)" "j < length (map uuid os)" using assms by simp_all
  ultimately show ?thesis using assms(1) nth_eq_iff_index_eq by blast
qed

text \<open>In a reachable state with the scene loaded, a highlighted mesh is the selected one.\<close>

lemma highlighted_is_selected:
  assumes r: "reachable (a, h)" and scene: "gltfScene a"
    and i: "i < length (objs h)" and m: "isMesh (objs h ! i)" and hl: "highlighted h i"
  shows "selectedId a = Some (uuid (objs h ! i)) \<and> selectedMesh a = Some i"
proof -
  from reachable_inv [OF r] scene i have l: "lit_ok (selectedId a) h i"
    and d: "distinct (map uuid (objs h))" and s: "sel_inv a h"
    by (simp_all add: app_inv_def)
  from lit_ok_highlighted [OF l m] hl have id: "selectedId a = Some (uuid (objs h ! i))" by simp
  show ?thesis
  proof (cases "selectedMesh a")
    case None
    with s id show ?thesis by (simp add: sel_inv_def)
  next
    case (Some k)
    with s have k: "k < length (objs h)" and "selectedId a = Some (uuid (objs h ! k))"
      by (simp_all add: sel_inv_def)
    with id have "uuid (objs h ! i) = uuid (objs h ! k)" by simp
    from distinct_uuid_index [OF d i k this] Some id show ?thesis by simp
  qed
qed

lemma selected_is_highlighted:
  assumes r: "reachable (a, h)" and m: "selectedMesh a = Some m" and c: "highlightable h m"
  shows "highlighted h m"
proof -
  from reachable_inv [OF r] have s: "sel_inv a h"
    and l: "gltfScene a \<longrightarrow> (\<forall>i<length (objs h). lit_ok (selectedId a) h i)"
    by (simp_all add: app_inv_def)
  from s m have k: "m < length (objs h)" "isMesh (objs h ! m)"
    "selectedId a = Some (uuid (objs h ! m))" "gltfScene a"
    by (simp_all add: sel_inv_def)
  with l have "lit_ok (selectedId a) h m" by simp
  from lit_ok_highlighted [OF this k(2)] k(3) c show ?thesis by simp
qed

subsection \<open>Evaluating the example states\<close>

lemmas example_defs =
  example_molar_def example_canine_def example_material_def example_objs_def example_mats_def
  example_rect_def example_event_def ray_molar_def ray_canine_def ray_nothing_def ray_thin_def
  example_transition_def

lemmas eval_defs =
  initial_def default_pose_def Model_highlight_effect_def highlight_child_def Let_def
  HIGHLIGHT_COLOR_def upt_rec handlePointerDown_def pick_def offsets_def ndc_def onSelect_def
  onMiss_def onFirstInteract_def commit_def CameraFocus_deps_changed_def CameraFocus_effect_def
  CameraFocus_cleanup_def cancelAnimationFrame_def end_pose_def requestAnimationFrame_def
  getCenter_def isEmpty_def display_name_def Vector3_add_def Vector3_sub_def multiplyScalar_def
  run_frame_def animate_def duration_def easeInOut_def lerpVectors_def home_onClick_def

lemma example_wf_scene: "wf_scene example_objs example_mats"
  by (simp add: wf_scene_def example_defs)

lemma example_loaded_eq:
  "example_loaded =
     (\<lparr>selectedId = None, selectedName = [], selectedMesh = None, gltfScene = True,
       showInstructions = True, debugEnabled = False,
       hoverInfo = \<lparr>hover_name = [], hover_x = 0, hover_y = 0, visible = False\<rparr>,
       resetKey = 0, resetView = None\<rparr>,
      \<lparr>controlsRef_current = True,
       camera_position = \<lparr>vx = 0, vy = 1.2, vz = 3\<rparr>,
       controls_target = \<lparr>vx = 0, vy = 0, vz = 0\<rparr>,
       defaultView = default_pose,
       rafRef = None, has_cleanup = False, raf_queue = [], next_raf = 1, next_obj = 0,
       objs = [example_molar\<lparr>material := Some 1\<rparr>, example_canine\<lparr>material := Some 2\<rparr>],
       mats = [example_material,
               \<lparr>cloned = True, emissive = Some ''#000000'', emissiveIntensity = 0\<rparr>,
               \<lparr>cloned = True, emissive = Some ''#000000'', emissiveIntensity = 0\<rparr>]\<rparr>)"
  by (simp add: example_loaded_def eval_defs example_defs)

lemma example_selected_eq:
  "example_selected =
     (\<lparr>selectedId = Some ''u-molar'', selectedName = ''Molar'', selectedMesh = Some 0,
       gltfScene = True, showInstructions = False, debugEnabled = False,
       hoverInfo = \<lparr>hover_name = [], hover_x = 0, hover_y = 0, visible = False\<rparr>,
       resetKey = 0, resetView = None\<rparr>,
      \<lparr>controlsRef_current = True,
       camera_position = \<lparr>vx = 0, vy = 1.2, vz = 3\<rparr>,
       controls_target = \<lparr>vx = 0, vy = 0, vz = 0\<rparr>,
       defaultView = default_pose,
       rafRef = Some 1, has_cleanup = True, raf_queue = [(1, example_transition)],
       next_raf = 2, next_obj = 0,
       objs = [example_molar\<lparr>material := Some 1\<rparr>, example_canine\<lparr>material := Some 2\<rparr>],
       mats = [example_material,
               \<lparr>cloned = True, emissive = Some ''#f5b77a'', emissiveIntensity = 0.6\<rparr>,
               \<lparr>cloned = True, emissive = Some ''#000000'', emissiveIntensity = 0\<rparr>]\<rparr>)"
  unfolding example_selected_def example_loaded_eq
  by (simp add: eval_defs example_defs)

lemma example_midway_eq:
  "example_midway =
     (fst example_selected,
      (snd example_selected)
        \<lparr>camera_position := \<lparr>vx = 1, vy = 1.7, vz = 3.5\<rparr>,
         controls_target := \<lparr>vx = 1, vy = 0.5, vz = 0.5\<rparr>,
         rafRef := Some 2, raf_queue := [(2, example_transition)], next_raf := 3\<rparr>)"
  unfolding example_midway_def example_selected_eq
  by (simp add: eval_defs example_defs)

lemma example_arrived_eq:
  "example_arrived =
     (fst example_selected,
      (snd example_selected)
        \<lparr>camera_position := \<lparr>vx = 2, vy = 2.2, vz = 4\<rparr>,
         controls_target := \<lparr>vx = 2, vy = 1, vz = 1\<rparr>,
         rafRef := Some 2, raf_queue := [], next_raf := 3\<rparr>)"
  unfolding example_arrived_def example_midway_eq example_selected_eq
  by (simp add: eval_defs example_defs)

lemma example_loaded_reachable: "reachable example_loaded"
  unfolding example_loaded_def
  by (rule reachable_step [OF reachable_initial [OF example_wf_scene]]) simp

lemma example_selected_reachable: "reachable example_selected"
  unfolding example_selected_def
  by (rule reachable_step [OF example_loaded_reachable])
     (simp add: example_loaded_eq ray_molar_def rendered_def example_rect_def)

lemma example_midway_reachable: "reachable example_midway"
  unfolding example_midway_def
  by (rule reachable_step [OF example_selected_reachable]) simp

lemma example_arrived_reachable: "reachable example_arrived"
  unfolding example_arrived_def
  by (rule reachable_step [OF example_midway_reachable]) simp

lemma example_thin_hits:
  "hit_at ray_thin (objs (snd example_loaded)) (sample example_rect example_event (offsets ! 0)) = None"
  "hit_at ray_thin (objs (snd example_loaded)) (sample example_rect example_event (offsets ! 1)) = Some 1"
  by (simp_all add: hit_at_def sample_def ndc_def offsets_def example_loaded_eq example_defs)

lemma example_home_eq:
  "example_home =
     ((fst example_midway)
        \<lparr>selectedId := None, selectedName := [], selectedMesh := None,
         resetKey := 1, resetView := Some (0, default_pose)\<rparr>,
      (snd example_midway)
        \<lparr>rafRef := Some 3,
         raf_queue := [(3, \<lparr>startPos = \<lparr>vx = 1, vy = 1.7, vz = 3.5\<rparr>,
                            startTarget = \<lparr>vx = 1, vy = 0.5, vz = 0.5\<rparr>,
                            endPos = \<lparr>vx = 0, vy = 1.2, vz = 3\<rparr>,
                            endTarget = \<lparr>vx = 0, vy = 0, vz = 0\<rparr>, startTime = 2000\<rparr>)],
         next_raf := 4, next_obj := 1,
         mats := [example_material,
                  \<lparr>cloned = True, emissive = Some ''#000000'', emissiveIntensity = 0\<rparr>,
                  \<lparr>cloned = True, emissive = Some ''#000000'', emissiveIntensity = 0\<rparr>]\<rparr>)"
  unfolding example_home_def example_midway_eq example_selected_eq
  by (simp add: eval_defs example_defs)

lemma example_home_reachable: "reachable example_home"
  unfolding example_home_def
  by (rule reachable_step [OF example_midway_reachable]) simp

lemma example_pairs:
  "reachable (fst example_loaded, snd example_loaded)"
  "reachable (fst example_selected, snd example_selected)"
  "reachable (fst example_midway, snd example_midway)"
  "reachable (fst example_arrived, snd example_arrived)"
  "reachable (fst example_home, snd example_home)"
  using example_loaded_reachable example_selected_reachable example_midway_reachable
    example_arrived_reachable example_home_reachable by simp_all

lemma example_picks:
  "fst (pick ray_molar (objs (snd example_arrived)) example_rect example_event) = Some 0"
  "fst (pick ray_canine (objs (snd example_arrived)) example_rect example_event) = Some 1"
  "fst (pick ray_canine (objs (snd example_midway)) example_rect example_event) = Some 1"
  "fst (pick ray_canine (objs (snd example_home)) example_rect example_event) = Some 1"
  by (simp_all add: example_arrived_eq example_midway_eq example_home_eq example_selected_eq
        pick_def offsets_def Let_def example_defs)

lemma example_event_ok:
  "event_ok (PointerDown example_event example_rect ray_molar now) (fst example_arrived, snd example_arrived)"
  "event_ok (PointerDown example_event example_rect ray_canine now) (fst example_arrived, snd example_arrived)"
  "event_ok (PointerDown example_event example_rect ray_canine now) (fst example_midway, snd example_midway)"
  "event_ok (PointerDown example_event example_rect ray_canine now) (fst example_home, snd example_home)"
  "event_ok (PointerDown example_event example_rect ray_canine now) (fst example_selected, snd example_selected)"
  by (simp_all add: example_arrived_eq example_midway_eq example_home_eq example_selected_eq example_defs
        rendered_def)

lemma example_unlit_wf_scene: "wf_scene example_unlit_objs example_unlit_mats"
  by (simp add: wf_scene_def example_unlit_objs_def example_unlit_mats_def)

lemma example_unlit_loaded_eq:
  "step SceneReady (initial example_unlit_objs example_unlit_mats) =
     (\<lparr>selectedId = None, selectedName = [], selectedMesh = None, gltfScene = True,
       showInstructions = True, debugEnabled = False,
       hoverInfo = \<lparr>hover_name = [], hover_x = 0, hover_y = 0, visible = False\<rparr>,
       resetKey = 0, resetView = None\<rparr>,
      \<lparr>controlsRef_current = True,
       camera_position = \<lparr>vx = 0, vy = 1.2, vz = 3\<rparr>,
       controls_target = \<lparr>vx = 0, vy = 0, vz = 0\<rparr>,
       defaultView = default_pose,
       rafRef = None, has_cleanup = False, raf_queue = [], next_raf = 1, next_obj = 0,
       objs = [\<lparr>uuid = ''u-unlit'', name = ''Incisor'', isMesh = True, material = Some 1,
                bbox = \<lparr>box_min = \<lparr>vx = 0, vy = 0, vz = 0\<rparr>,
                        box_max = \<lparr>vx = 1, vy = 1, vz = 1\<rparr>\<rparr>\<rparr>],
       mats = [\<lparr>cloned = False, emissive = None, emissiveIntensity = 1\<rparr>,
               \<lparr>cloned = True, emissive = None, emissiveIntensity = 1\<rparr>]\<rparr>)"
  by (simp add: eval_defs example_unlit_objs_def example_unlit_mats_def)

lemma example_unlit_selected_eq:
  "example_unlit_selected =
     (\<lparr>selectedId = Some ''u-unlit'', selectedName = ''Incisor'', selectedMesh = Some 0,
       gltfScene = True, showInstructions = False, debugEnabled = False,
       hoverInfo = \<lparr>hover_name = [], hover_x = 0, hover_y = 0, visible = False\<rparr>,
       resetKey = 0, resetView = None\<rparr>,
      \<lparr>controlsRef_current = True,
       camera_position = \<lparr>vx = 0, vy = 1.2, vz = 3\<rparr>,
       controls_target = \<lparr>vx = 0, vy = 0, vz = 0\<rparr>,
       defaultView = default_pose,
       rafRef = Some 1, has_cleanup = True,
       raf_queue = [(1, \<lparr>startPos = \<lparr>vx = 0, vy = 1.2, vz = 3\<rparr>,
                          startTarget = \<lparr>vx = 0, vy = 0, vz = 0\<rparr>,
                          endPos = \<lparr>vx = 0.5, vy = 1.7, vz = 3.5\<rparr>,
                          endTarget = \<lparr>vx = 0.5, vy = 0.5, vz = 0.5\<rparr>,
                          startTime = 1000\<rparr>)],
       next_raf = 2, next_obj = 0,
       objs = [\<lparr>uuid = ''u-unlit'', name = ''Incisor'', isMesh = True, material = Some 1,
                bbox = \<lparr>box_min = \<lparr>vx = 0, vy = 0, vz = 0\<rparr>,
                        box_max = \<lparr>vx = 1, vy = 1, vz = 1\<rparr>\<rparr>\<rparr>],
       mats = [\<lparr>cloned = False, emissive = None, emissiveIntensity = 1\<rparr>,
               \<lparr>cloned = True, emissive = None, emissiveIntensity = 1\<rparr>]\<rparr>)"
  unfolding example_unlit_selected_def example_unlit_loaded_eq
  by (simp add: eval_defs example_defs)

lemma example_unlit_selected_reachable: "reachable example_unlit_selected"
  unfolding example_unlit_selected_def
  by (rule reachable_step [OF reachable_step [OF reachable_initial [OF example_unlit_wf_scene]]])
     (simp_all add: example_unlit_loaded_eq ray_molar_def rendered_def example_rect_def)

section \<open>The claims\<close>

subsection \<open>C5: duration, easing and end of a camera transition\<close>

text \<open>
  C5. The duration of every transition is the constant 600 (ms). When the frame callback
  of a pending transition \<open>tr\<close> runs at time \<open>now\<close>, with \<open>t\<close> the elapsed fraction
  \<open>min ((now - startTime) / 600) 1\<close>, the eased parameter is \<open>4t\<^sup>3\<close> below one half and
  \<open>1 - (-2t + 2)\<^sup>3 / 2\<close> from there on; the camera position and the orbit target become
  the linear interpolations of their start and end values at that parameter (the orbit
  controls' own \<open>update\<close> leaving that pose as it is). While less than 600 ms have elapsed
  the callback is requested again; otherwise no callback remains and the live pose is
  exactly the end pose. Numbers are real numbers here, so "exactly" is without rounding.
\<close>

theorem camera_transition_frame:
  assumes q: "raf_queue h = [(k, tr)]"
    and t: "t = min ((now - startTime tr) / 600) 1"
    and p: "p = \<lparr>position = lerpVectors (startPos tr) (endPos tr) (easeInOut t),
                  target = lerpVectors (startTarget tr) (endTarget tr) (easeInOut t)\<rparr>"
    and u: "update p = p"
  shows "duration = 600
    \<and> easeInOut t = (if t < 1 / 2 then 4 * t ^ 3 else 1 - (- 2 * t + 2) ^ 3 / 2)
    \<and> camera_position (run_frame update now h) = position p
    \<and> controls_target (run_frame update now h) = target p
    \<and> (if now - startTime tr < 600
        then raf_queue (run_frame update now h) = [(next_raf h, tr)]
        else raf_queue (run_frame update now h) = []
           \<and> camera_position (run_frame update now h) = endPos tr
           \<and> controls_target (run_frame update now h) = endTarget tr)"
proof -
  have d: "duration = 600" by (simp add: duration_def)
  have e: "easeInOut t = (if t < 1 / 2 then 4 * t ^ 3 else 1 - (- 2 * t + 2) ^ 3 / 2)"
    by (simp add: easeInOut_def power3_eq_cube algebra_simps)
  have lt: "t < 1 \<longleftrightarrow> now - startTime tr < 600" using t by (auto simp: min_def)
  have r: "run_frame update now h = animate update tr now (h\<lparr>raf_queue := []\<rparr>)"
    using q by (rule run_frame_single)
  have pos: "camera_position (run_frame update now h) = position p"
    and tgt: "controls_target (run_frame update now h) = target p"
    using u by (simp_all add: r animate_def Let_def d t [symmetric] p [symmetric] requestAnimationFrame_def)
  have queue: "raf_queue (run_frame update now h) = (if now - startTime tr < 600 then [(next_raf h, tr)] else [])"
    using lt by (simp add: r animate_def Let_def d t [symmetric] requestAnimationFrame_def)
  have fin: "\<not> now - startTime tr < 600 \<Longrightarrow> position p = endPos tr \<and> target p = endTarget tr"
  proof -
    assume "\<not> now - startTime tr < 600"
    then have "t = 1" using t by (simp add: min_def)
    then show ?thesis by (simp add: p easeInOut_1 lerpVectors_1)
  qed
  show ?thesis using d e pos tgt queue fin by simp
qed

text \<open>
  The transition towards the molar, 300 ms and 700 ms after its start: half way with the
  callback requested again, then at the end pose with no callback left.
\<close>

theorem camera_transition_frame_witness:
  "raf_queue (snd example_selected) = [(1, example_transition)]
   \<and> camera_position (run_frame (\<lambda>p. p) 1300 (snd example_selected)) = \<lparr>vx = 1, vy = 1.7, vz = 3.5\<rparr>
   \<and> controls_target (run_frame (\<lambda>p. p) 1300 (snd example_selected)) = \<lparr>vx = 1, vy = 0.5, vz = 0.5\<rparr>
   \<and> raf_queue (run_frame (\<lambda>p. p) 1300 (snd example_selected)) = [(2, example_transition)]
   \<and> raf_queue (run_frame (\<lambda>p. p) 1700 (snd example_selected)) = []
   \<and> camera_position (run_frame (\<lambda>p. p) 1700 (snd example_selected)) = endPos example_transition
   \<and> controls_target (run_frame (\<lambda>p. p) 1700 (snd example_selected)) = endTarget example_transition"
proof -
  have q: "raf_queue (snd example_selected) = [(1, example_transition)]"
    by (simp add: example_selected_eq)
  have n: "next_raf (snd example_selected) = 2" by (simp add: example_selected_eq)
  have t1: "(1 / 2 :: real) = min ((1300 - startTime example_transition) / 600) 1"
    by (simp add: example_transition_def)
  have t2: "(1 :: real) = min ((1700 - startTime example_transition) / 600) 1"
    by (simp add: example_transition_def)
  have e1: "easeInOut (1 / 2) = 1 / 2" by (simp add: easeInOut_def)
  note a = camera_transition_frame [OF q t1 refl, of "\<lambda>p. p"]
  note b = camera_transition_frame [OF q t2 refl, of "\<lambda>p. p"]
  have a': "camera_position (run_frame (\<lambda>p. p) 1300 (snd example_selected)) = \<lparr>vx = 1, vy = 1.7, vz = 3.5\<rparr>"
    "controls_target (run_frame (\<lambda>p. p) 1300 (snd example_selected)) = \<lparr>vx = 1, vy = 0.5, vz = 0.5\<rparr>"
    "raf_queue (run_frame (\<lambda>p. p) 1300 (snd example_selected)) = [(2, example_transition)]"
    using a n by (simp_all add: e1 lerpVectors_def example_transition_def)
  have b': "raf_queue (run_frame (\<lambda>p. p) 1700 (snd example_selected)) = []"
    "camera_position (run_frame (\<lambda>p. p) 1700 (snd example_selected)) = endPos example_transition"
    "controls_target (run_frame (\<lambda>p. p) 1700 (snd example_selected)) = endTarget example_transition"
    using b by (simp_all add: example_transition_def lerpVectors_def)
  from q a' b' show ?thesis by simp
qed

subsection \<open>C3: the nine offset samples of a pick\<close>

text \<open>
  C3. With a scene present (and a render surface of positive size), a pointer-down tests
  the fixed list of nine offsets in order: the exact pointer, the four axis-aligned
  offsets of 6 pixels, the four diagonal offsets of 8 pixels in each axis (radius
  measured along the axes: 0, 6 and 8). If offset number
  \<open>k\<close> is the first whose ray meets a mesh, exactly the rays of the offsets \<open>0..k\<close> are cast,
  in that order, and the nearest mesh of ray \<open>k\<close> becomes the selection; if none of the nine
  rays meets a mesh, all nine are cast and the pick is a miss; and a miss happens only when
  all nine fail.
\<close>

theorem pick_offset_order:
  assumes scene: "gltfScene a" and rect: "rendered rect"
  shows "offsets = [(0, 0), (6, 0), (- 6, 0), (0, 6), (0, - 6), (8, 8), (- 8, 8), (8, - 8), (- 8, - 8)]
    \<and> length offsets = 9
    \<and> map offset_radius offsets = [0, 6, 6, 6, 6, 8, 8, 8, 8]
    \<and> (\<forall>k<9. hit_at ray (objs h) (sample rect ev (offsets ! k)) \<noteq> None
           \<and> (\<forall>j<k. hit_at ray (objs h) (sample rect ev (offsets ! j)) = None)
         \<longrightarrow> rays_cast (PointerDown ev rect ray now) (a, h) = map (sample rect ev) (take (Suc k) offsets)
           \<and> selectedMesh (fst (step (PointerDown ev rect ray now) (a, h)))
               = hit_at ray (objs h) (sample rect ev (offsets ! k)))
    \<and> ((\<forall>k<9. hit_at ray (objs h) (sample rect ev (offsets ! k)) = None)
         \<longrightarrow> rays_cast (PointerDown ev rect ray now) (a, h) = map (sample rect ev) offsets
           \<and> selectedMesh (fst (step (PointerDown ev rect ray now) (a, h))) = None)
    \<and> (selectedMesh (fst (step (PointerDown ev rect ray now) (a, h))) = None
         \<longrightarrow> (\<forall>k<9. hit_at ray (objs h) (sample rect ev (offsets ! k)) = None))"
proof -
  have len: "length offsets = 9" by (simp add: offsets_def)
  have sel: "selectedMesh (fst (step (PointerDown ev rect ray now) (a, h))) = fst (pick ray (objs h) rect ev)"
    using scene by (simp add: Let_def handlePointerDown_selectedMesh)
  have rays: "rays_cast (PointerDown ev rect ray now) (a, h) = snd (pick ray (objs h) rect ev)"
    using scene by simp
  have 1: "offsets = [(0, 0), (6, 0), (- 6, 0), (0, 6), (0, - 6), (8, 8), (- 8, 8), (8, - 8), (- 8, - 8)]"
    by (simp add: offsets_def)
  have 2: "map offset_radius offsets = [0, 6, 6, 6, 6, 8, 8, 8, 8]"
    by (simp add: offsets_def offset_radius_def)
  have 3: "\<forall>k<9. hit_at ray (objs h) (sample rect ev (offsets ! k)) \<noteq> None
           \<and> (\<forall>j<k. hit_at ray (objs h) (sample rect ev (offsets ! j)) = None)
         \<longrightarrow> rays_cast (PointerDown ev rect ray now) (a, h) = map (sample rect ev) (take (Suc k) offsets)
           \<and> selectedMesh (fst (step (PointerDown ev rect ray now) (a, h)))
               = hit_at ray (objs h) (sample rect ev (offsets ! k))"
    unfolding sel rays using pick_first_hit [of _ ray "objs h" rect ev] len by simp
  have 4: "(\<forall>k<9. hit_at ray (objs h) (sample rect ev (offsets ! k)) = None)
         \<longrightarrow> rays_cast (PointerDown ev rect ray now) (a, h) = map (sample rect ev) offsets
           \<and> selectedMesh (fst (step (PointerDown ev rect ray now) (a, h))) = None"
    unfolding sel rays using pick_all_miss [of ray "objs h" rect ev] len by simp
  have 5: "selectedMesh (fst (step (PointerDown ev rect ray now) (a, h))) = None
         \<longrightarrow> (\<forall>k<9. hit_at ray (objs h) (sample rect ev (offsets ! k)) = None)"
    unfolding sel using pick_None [of ray "objs h" rect ev] len by simp
  from 1 len 2 3 4 5 show ?thesis by blast
qed

text \<open>
  The thin canine under the pointer at (100, 100): the exact pointer misses, the offset
  (6, 0) hits, two rays are cast.
\<close>

theorem pick_offset_order_witness:
  "gltfScene (fst example_loaded) \<and> rendered example_rect
   \<and> hit_at ray_thin (objs (snd example_loaded)) (sample example_rect example_event (offsets ! 0)) = None
   \<and> hit_at ray_thin (objs (snd example_loaded)) (sample example_rect example_event (offsets ! 1)) = Some 1
   \<and> rays_cast (PointerDown example_event example_rect ray_thin 1000) example_loaded
       = [(- 3 / 4, 2 / 3), (- 147 / 200, 2 / 3)]
   \<and> selectedMesh (fst (step (PointerDown example_event example_rect ray_thin 1000) example_loaded)) = Some 1"
proof -
  let ?a = "fst example_loaded" and ?h = "snd example_loaded"
  have g: "gltfScene ?a" by (simp add: example_loaded_eq)
  note h0 = example_thin_hits(1) and h1 = example_thin_hits(2)
  have rd: "rendered example_rect" by (simp add: rendered_def example_rect_def)
  note t = pick_offset_order [OF g rd, of ray_thin ?h example_event 1000]
  note t4 = t [THEN conjunct2, THEN conjunct2, THEN conjunct2, THEN conjunct1, rule_format, of 1]
  have "rays_cast (PointerDown example_event example_rect ray_thin 1000) (?a, ?h)
               = map (sample example_rect example_event) (take (Suc 1) offsets)
           \<and> selectedMesh (fst (step (PointerDown example_event example_rect ray_thin 1000) (?a, ?h)))
               = hit_at ray_thin (objs ?h) (sample example_rect example_event (offsets ! 1))"
    by (rule t4) (simp_all add: h0 h1 del: One_nat_def)
  then have r: "rays_cast (PointerDown example_event example_rect ray_thin 1000) example_loaded
               = map (sample example_rect example_event) (take (Suc 1) offsets)"
    and m: "selectedMesh (fst (step (PointerDown example_event example_rect ray_thin 1000) example_loaded)) = Some 1"
    unfolding prod.collapse h1 by simp_all
  have "map (sample example_rect example_event) (take (Suc 1) offsets) = [(- 3 / 4, 2 / 3), (- 147 / 200, 2 / 3)]"
    by (simp add: offsets_def sample_def ndc_def example_defs)
  with r m g rd h0 h1 show ?thesis by simp
qed

subsection \<open>C9: pointer events without a scene\<close>

text \<open>
  C9. While the scene root is absent, a pointer-down, a pointer-move and a pointer-leave
  change nothing and cast no ray: there is no hit, no selection change and no failure.
\<close>

theorem absent_scene_no_op:
  assumes "\<not> gltfScene a"
  shows "step (PointerDown ev rect ray now) (a, h) = (a, h)
    \<and> rays_cast (PointerDown ev rect ray now) (a, h) = []
    \<and> step (PointerMove ev rect ray now) (a, h) = (a, h)
    \<and> rays_cast (PointerMove ev rect ray now) (a, h) = []
    \<and> step (PointerLeave now) (a, h) = (a, h)"
  using assms by simp

text \<open>Pointer events in the initial state, before the model has loaded.\<close>

theorem absent_scene_no_op_witness:
  "\<not> gltfScene (fst (initial example_objs example_mats))
   \<and> step (PointerDown example_event example_rect ray_molar 1000) (initial example_objs example_mats)
       = initial example_objs example_mats
   \<and> rays_cast (PointerDown example_event example_rect ray_molar 1000) (initial example_objs example_mats) = []
   \<and> step (PointerMove example_event example_rect ray_molar 1000) (initial example_objs example_mats)
       = initial example_objs example_mats
   \<and> rays_cast (PointerMove example_event example_rect ray_molar 1000) (initial example_objs example_mats) = []"
proof -
  let ?s = "initial example_objs example_mats"
  have g: "\<not> gltfScene (fst ?s)" by (simp add: initial_def)
  from absent_scene_no_op [OF g, of example_event example_rect ray_molar 1000 "snd ?s"] g
  show ?thesis by (simp del: step.simps rays_cast.simps)
qed

subsection \<open>C8: the hover probe\<close>

text \<open>
  C8. A pointer-move (on a render surface of positive size) never changes the selection,
  the reset request or anything of the host (camera, transition, scene). When the scene
  is present and diagnostics mode is on, it casts exactly one ray, at the pointer itself;
  on a hit the hover indicator gets the display name of the nearest mesh and the client
  position of the pointer, on a miss it is hidden, and a pointer-leave hides it too.
  Otherwise no ray is cast and nothing changes.
\<close>

theorem hover_probe:
  assumes rect: "rendered rect"
  shows "selectedId (fst (step (PointerMove ev rect ray now) (a, h))) = selectedId a
   \<and> selectedName (fst (step (PointerMove ev rect ray now) (a, h))) = selectedName a
   \<and> selectedMesh (fst (step (PointerMove ev rect ray now) (a, h))) = selectedMesh a
   \<and> resetView (fst (step (PointerMove ev rect ray now) (a, h))) = resetView a
   \<and> resetKey (fst (step (PointerMove ev rect ray now) (a, h))) = resetKey a
   \<and> snd (step (PointerMove ev rect ray now) (a, h)) = h
   \<and> (if gltfScene a \<and> debugEnabled a
       then rays_cast (PointerMove ev rect ray now) (a, h) = [sample rect ev (0, 0)]
          \<and> hoverInfo (fst (step (PointerMove ev rect ray now) (a, h))) =
              (case hit_at ray (objs h) (sample rect ev (0, 0)) of
                 Some m \<Rightarrow> \<lparr>hover_name = display_name (objs h ! m), hover_x = clientX ev,
                             hover_y = clientY ev, visible = True\<rparr>
               | None \<Rightarrow> (hoverInfo a)\<lparr>visible := False\<rparr>)
          \<and> step (PointerLeave now) (a, h) = (a\<lparr>hoverInfo := (hoverInfo a)\<lparr>visible := False\<rparr>\<rparr>, h)
       else rays_cast (PointerMove ev rect ray now) (a, h) = []
          \<and> step (PointerMove ev rect ray now) (a, h) = (a, h)
          \<and> step (PointerLeave now) (a, h) = (a, h))"
proof (cases "gltfScene a \<and> debugEnabled a")
  case False
  then show ?thesis by auto
next
  case True
  let ?a = "handlePointerMove ray (objs h) rect ev a"
  have f: "selectedId ?a = selectedId a" "selectedName ?a = selectedName a"
    "selectedMesh ?a = selectedMesh a" "resetView ?a = resetView a" "resetKey ?a = resetKey a"
    by (simp_all add: handlePointerMove_def onHover_def onLeave_def split: option.splits)
  have c: "commit now a ?a h = h"
    by (rule commit_same) (simp_all add: f CameraFocus_deps_changed_def)
  have st: "step (PointerMove ev rect ray now) (a, h) = (?a, h)"
    using True c by (simp add: Let_def)
  have p: "probe ray (objs h) rect ev = (hit_at ray (objs h) (sample rect ev (0, 0)), [sample rect ev (0, 0)])"
    by (simp add: probe_def Let_def hit_at_def sample_def)
  have r: "rays_cast (PointerMove ev rect ray now) (a, h) = [sample rect ev (0, 0)]"
    using True by (simp add: p)
  have hv: "hoverInfo ?a =
              (case hit_at ray (objs h) (sample rect ev (0, 0)) of
                 Some m \<Rightarrow> \<lparr>hover_name = display_name (objs h ! m), hover_x = clientX ev,
                             hover_y = clientY ev, visible = True\<rparr>
               | None \<Rightarrow> (hoverInfo a)\<lparr>visible := False\<rparr>)"
    by (simp add: handlePointerMove_def p onHover_def onLeave_def split: option.splits)
  have l: "step (PointerLeave now) (a, h) = (a\<lparr>hoverInfo := (hoverInfo a)\<lparr>visible := False\<rparr>\<rparr>, h)"
  proof -
    have "commit now a (handlePointerLeave a) h = h"
      by (rule commit_same) (simp_all add: handlePointerLeave_def onLeave_def CameraFocus_deps_changed_def)
    then show ?thesis using True by (simp add: Let_def handlePointerLeave_def onLeave_def)
  qed
  show ?thesis using True f r hv l unfolding st by simp
qed

text \<open>Hovering the molar with diagnostics on; and the same move with diagnostics off.\<close>

theorem hover_probe_witness:
  "rendered example_rect
   \<and> rays_cast (PointerMove example_event example_rect ray_molar 1000)
      ((fst example_selected)\<lparr>debugEnabled := True\<rparr>, snd example_selected) = [(- 3 / 4, 2 / 3)]
   \<and> hoverInfo (fst (step (PointerMove example_event example_rect ray_molar 1000)
        ((fst example_selected)\<lparr>debugEnabled := True\<rparr>, snd example_selected)))
       = \<lparr>hover_name = ''Molar'', hover_x = 100, hover_y = 100, visible = True\<rparr>
   \<and> selectedMesh (fst (step (PointerMove example_event example_rect ray_molar 1000)
        ((fst example_selected)\<lparr>debugEnabled := True\<rparr>, snd example_selected))) = Some 0
   \<and> rays_cast (PointerMove example_event example_rect ray_molar 1000) example_selected = []"
proof -
  let ?a = "(fst example_selected)\<lparr>debugEnabled := True\<rparr>"
  let ?h = "snd example_selected"
  have g: "gltfScene ?a \<and> debugEnabled ?a" by (simp add: example_selected_eq)
  have n: "\<not> (gltfScene (fst example_selected) \<and> debugEnabled (fst example_selected))"
    by (simp add: example_selected_eq)
  have s: "sample example_rect example_event (0, 0) = (- 3 / 4, 2 / 3)"
    by (simp add: sample_def ndc_def example_defs)
  have hit: "\<And>p. hit_at ray_molar (objs ?h) p = Some 0"
    by (simp add: hit_at_def example_selected_eq example_defs)
  have nm: "display_name (objs ?h ! 0) = ''Molar''"
    by (simp add: display_name_def example_selected_eq example_defs)
  have e: "clientX example_event = 100" "clientY example_event = 100" by (simp_all add: example_defs)
  have m: "selectedMesh ?a = Some 0" by (simp add: example_selected_eq)
  have rd: "rendered example_rect" by (simp add: rendered_def example_rect_def)
  from hover_probe [OF rd, of example_event ray_molar 1000 ?a ?h] g
  have 1: "rays_cast (PointerMove example_event example_rect ray_molar 1000) (?a, ?h) = [(- 3 / 4, 2 / 3)]"
    and 2: "hoverInfo (fst (step (PointerMove example_event example_rect ray_molar 1000) (?a, ?h)))
       = \<lparr>hover_name = ''Molar'', hover_x = 100, hover_y = 100, visible = True\<rparr>"
    and 3: "selectedMesh (fst (step (PointerMove example_event example_rect ray_molar 1000) (?a, ?h))) = Some 0"
    by (simp_all add: s hit nm e m del: step.simps rays_cast.simps)
  from hover_probe [OF rd, of example_event ray_molar 1000 "fst example_selected" ?h] n
  have 4: "rays_cast (PointerMove example_event example_rect ray_molar 1000) example_selected = []"
    by (simp del: step.simps rays_cast.simps)
  from rd 1 2 3 4 show ?thesis by (simp del: step.simps rays_cast.simps)
qed

subsection \<open>C10: a selection and a reset request exclude each other\<close>

text \<open>
  C10. In every reachable state, the selection is empty or no reset request is pending.
  A pointer-down that hits a mesh stores that mesh as the selection and clears the reset
  request in the same batch, so that the animator takes the selection branch; the Home
  button clears the selection in the batch that installs its request.
\<close>

theorem selection_excludes_reset:
  assumes "reachable (a, h)"
  shows "(selectedMesh a = None \<or> resetView a = None)
    \<and> (selectedId a = None \<or> resetView a = None)
    \<and> (gltfScene a \<and> fst (pick ray (objs h) rect ev) \<noteq> None
         \<longrightarrow> selectedMesh (fst (step (PointerDown ev rect ray now) (a, h))) = fst (pick ray (objs h) rect ev)
           \<and> resetView (fst (step (PointerDown ev rect ray now) (a, h))) = None)
    \<and> selectedMesh (fst (step (HomeClick now') (a, h))) = None
    \<and> selectedId (fst (step (HomeClick now') (a, h))) = None
    \<and> resetView (fst (step (HomeClick now') (a, h))) \<noteq> None"
proof -
  from reachable_facts(4) [OF assms]
  have 1: "(selectedMesh a = None \<or> resetView a = None) \<and> (selectedId a = None \<or> resetView a = None)"
    by (auto simp: sel_inv_def split: option.splits)
  have 2: "gltfScene a \<and> fst (pick ray (objs h) rect ev) \<noteq> None
         \<longrightarrow> selectedMesh (fst (step (PointerDown ev rect ray now) (a, h))) = fst (pick ray (objs h) rect ev)
           \<and> resetView (fst (step (PointerDown ev rect ray now) (a, h))) = None"
    using handlePointerDown_hit(1,4) [of ray "objs h" rect ev _ a] by (auto simp: Let_def)
  have 3: "selectedMesh (fst (step (HomeClick now') (a, h))) = None
    \<and> selectedId (fst (step (HomeClick now') (a, h))) = None
    \<and> resetView (fst (step (HomeClick now') (a, h))) \<noteq> None"
    by (simp add: Let_def home_onClick_def)
  from 1 2 3 show ?thesis by (simp del: step.simps)
qed

text \<open>
  After Home (a reset request, no selection), picking the canine selects it and removes
  the request; clicking Home again leaves no selection.
\<close>

theorem selection_excludes_reset_witness:
  "reachable example_home
   \<and> selectedMesh (fst example_home) = None \<and> resetView (fst example_home) = Some (0, default_pose)
   \<and> selectedMesh (fst (step (PointerDown example_event example_rect ray_canine 3000) example_home)) = Some 1
   \<and> resetView (fst (step (PointerDown example_event example_rect ray_canine 3000) example_home)) = None
   \<and> selectedMesh (fst (step (HomeClick 4000) example_home)) = None"
proof -
  note t = selection_excludes_reset [OF example_pairs(5), of ray_canine example_rect example_event 3000 4000]
  have g: "gltfScene (fst example_home) \<and> fst (pick ray_canine (objs (snd example_home)) example_rect example_event) \<noteq> None"
    by (simp add: example_picks) (simp add: example_home_eq example_midway_eq example_selected_eq)
  from t [THEN conjunct2, THEN conjunct2, THEN conjunct1, rule_format, OF g]
  have 1: "selectedMesh (fst (step (PointerDown example_event example_rect ray_canine 3000) example_home)) = Some 1"
    and 2: "resetView (fst (step (PointerDown example_event example_rect ray_canine 3000) example_home)) = None"
    unfolding prod.collapse example_picks by simp_all
  from t [THEN conjunct2, THEN conjunct2, THEN conjunct2, THEN conjunct1]
  have 3: "selectedMesh (fst (step (HomeClick 4000) example_home)) = None"
    unfolding prod.collapse .
  have 4: "selectedMesh (fst example_home) = None \<and> resetView (fst example_home) = Some (0, default_pose)"
    by (simp add: example_home_eq)
  from example_home_reachable 1 2 3 4 show ?thesis by (simp del: step.simps)
qed

subsection \<open>C7: the reset command\<close>

text \<open>
  C7. In every reachable state, whatever is selected, the Home button empties the
  selection (id, name and mesh), installs a reset request holding a copy of the default
  pose, and the animator replaces whatever callback was pending by one transition that
  starts at the live pose at the time of the click and ends at the default pose
  (position (0, 1.2, 3), target the origin); the stored default pose itself never
  changes.
\<close>

theorem reset_to_default_pose:
  assumes "reachable (a, h)"
  shows "selectedId (fst (step (HomeClick now) (a, h))) = None
    \<and> selectedName (fst (step (HomeClick now) (a, h))) = []
    \<and> selectedMesh (fst (step (HomeClick now) (a, h))) = None
    \<and> resetView (fst (step (HomeClick now) (a, h))) = Some (next_obj h, default_pose)
    \<and> defaultView (snd (step (HomeClick now) (a, h))) = default_pose
    \<and> raf_queue (snd (step (HomeClick now) (a, h))) =
        [(next_raf h,
          \<lparr>startPos = camera_position h, startTarget = controls_target h,
           endPos = position default_pose, endTarget = target default_pose,
           startTime = now\<rparr>)]"
proof -
  let ?g = "h\<lparr>next_obj := next_obj h + 1\<rparr>"
  let ?a = "home_onClick (next_obj h) (defaultView h) a"
  note f = reachable_facts [OF assms]
  have st: "step (HomeClick now) (a, h) = (?a, commit now a ?a ?g)" by (simp add: Let_def)
  have a': "selectedId ?a = None" "selectedName ?a = []" "selectedMesh ?a = None"
    "resetView ?a = Some (next_obj h, default_pose)" "resetKey ?a = resetKey a + 1"
    by (simp_all add: home_onClick_def f(6))
  have ch: "CameraFocus_deps_changed a ?a" by (simp add: CameraFocus_deps_changed_def a')
  have g: "raf_inv ?g" "refs_ok ?g" "clones_private ?g"
    using reachable_inv [OF assms, THEN app_inv_next_obj, of "next_obj h + 1"]
    by (simp_all add: app_inv_def)
  have q: "raf_queue (commit now a ?a ?g) = [(next_raf ?g, new_transition now ?a ?g)]"
    using commit_queue [OF g, where a' = ?a and now = now and a = a] ch f(5) a' by simp
  have n: "new_transition now ?a ?g =
          \<lparr>startPos = camera_position h, startTarget = controls_target h,
           endPos = position default_pose, endTarget = target default_pose,
           startTime = now\<rparr>"
    by (simp add: new_transition_def end_pose_def a')
  show ?thesis unfolding st using a' q n f(6) by (simp add: commit_frame)
qed

text \<open>Home clicked while the molar is selected and the camera is half way towards it.\<close>

theorem reset_to_default_pose_witness:
  "reachable example_midway
   \<and> selectedMesh (fst example_midway) = Some 0
   \<and> selectedId (fst (step (HomeClick 2000) example_midway)) = None
   \<and> selectedMesh (fst (step (HomeClick 2000) example_midway)) = None
   \<and> raf_queue (snd (step (HomeClick 2000) example_midway)) =
       [(3, \<lparr>startPos = \<lparr>vx = 1, vy = 1.7, vz = 3.5\<rparr>, startTarget = \<lparr>vx = 1, vy = 0.5, vz = 0.5\<rparr>,
             endPos = \<lparr>vx = 0, vy = 1.2, vz = 3\<rparr>, endTarget = \<lparr>vx = 0, vy = 0, vz = 0\<rparr>,
             startTime = 2000\<rparr>)]"
proof -
  note t = reset_to_default_pose [OF example_pairs(3), of 2000, unfolded prod.collapse]
  have v: "next_raf (snd example_midway) = 3"
    "camera_position (snd example_midway) = \<lparr>vx = 1, vy = 1.7, vz = 3.5\<rparr>"
    "controls_target (snd example_midway) = \<lparr>vx = 1, vy = 0.5, vz = 0.5\<rparr>"
    "selectedMesh (fst example_midway) = Some 0"
    by (simp_all add: example_midway_eq example_selected_eq)
  have d: "position default_pose = \<lparr>vx = 0, vy = 1.2, vz = 3\<rparr>" "target default_pose = \<lparr>vx = 0, vy = 0, vz = 0\<rparr>"
    by (simp_all add: default_pose_def)
  from t have "selectedId (fst (step (HomeClick 2000) example_midway)) = None
   \<and> selectedMesh (fst (step (HomeClick 2000) example_midway)) = None
   \<and> raf_queue (snd (step (HomeClick 2000) example_midway)) =
       [(3, \<lparr>startPos = \<lparr>vx = 1, vy = 1.7, vz = 3.5\<rparr>, startTarget = \<lparr>vx = 1, vy = 0.5, vz = 0.5\<rparr>,
             endPos = \<lparr>vx = 0, vy = 1.2, vz = 3\<rparr>, endTarget = \<lparr>vx = 0, vy = 0, vz = 0\<rparr>,
             startTime = 2000\<rparr>)]"
    unfolding v d by (simp del: step.simps)
  with example_midway_reachable v(4) show ?thesis by (simp del: step.simps)
qed

subsection \<open>C4: the end pose of a selection\<close>

text \<open>
  C4. When a pointer-down hits a mesh that is not the current selection, the transition
  that starts has as end target the centre of the bounding box of that mesh and as end
  position that centre plus the offset of the live camera position from the live orbit
  target at that moment; so the offset of the end position from the end target equals
  the present offset (same distance and angle). The transition starts at the live pose.
\<close>

theorem selection_end_pose:
  assumes r: "reachable (a, h)" and scene: "gltfScene a"
    and ok: "event_ok (PointerDown ev rect ray now) (a, h)"
    and hit: "fst (pick ray (objs h) rect ev) = Some m"
    and new: "selectedMesh a \<noteq> Some m"
  shows "\<exists>tr. raf_queue (snd (step (PointerDown ev rect ray now) (a, h))) = [(next_raf h, tr)]
     \<and> endTarget tr = getCenter (bbox (objs h ! m))
     \<and> endPos tr = Vector3_add (getCenter (bbox (objs h ! m)))
                      (Vector3_sub (camera_position h) (controls_target h))
     \<and> Vector3_sub (endPos tr) (endTarget tr) = Vector3_sub (camera_position h) (controls_target h)
     \<and> startPos tr = camera_position h \<and> startTarget tr = controls_target h"
proof -
  let ?a = "handlePointerDown ray (objs h) rect ev a"
  note f = reachable_facts [OF r]
  note a' = handlePointerDown_hit [OF hit, of a]
  have st: "step (PointerDown ev rect ray now) (a, h) = (?a, commit now a ?a h)"
    using scene by (simp add: Let_def)
  have si: "sel_inv ?a h" using sel_inv_pointer_down [OF f(4) scene] ok by simp
  have v: "\<And>k. selectedMesh ?a = Some k \<Longrightarrow> k < length (objs h)"
    using si by (rule sel_inv_valid)
  have ch: "CameraFocus_deps_changed a ?a" using new by (simp add: CameraFocus_deps_changed_def a')
  have "raf_queue (commit now a ?a h) =
     (if CameraFocus_deps_changed a ?a
      then (if controlsRef_current h \<and> (selectedMesh ?a \<noteq> None \<or> resetView ?a \<noteq> None)
            then [(next_raf h, new_transition now ?a h)] else [])
      else raf_queue h)"
    by (rule commit_queue [OF f(1) f(2) f(3)]) (rule v)
  then have q: "raf_queue (commit now a ?a h) = [(next_raf h, new_transition now ?a h)]"
    using ch f(5) a' by simp
  have e: "end_pose ?a h = Some (getCenter (bbox (objs h ! m)),
     Vector3_add (getCenter (bbox (objs h ! m))) (Vector3_sub (camera_position h) (controls_target h)))"
    by (simp add: end_pose_def a' Let_def)
  have "Vector3_sub (Vector3_add c d) c = d" for c d
    by (simp add: Vector3_sub_def Vector3_add_def)
  then show ?thesis unfolding st using q e by (simp add: new_transition_def)
qed

text \<open>Picking the canine while the camera is half way towards the molar.\<close>

theorem selection_end_pose_witness:
  "reachable example_midway \<and> gltfScene (fst example_midway)
   \<and> fst (pick ray_canine (objs (snd example_midway)) example_rect example_event) = Some 1
   \<and> selectedMesh (fst example_midway) \<noteq> Some 1
   \<and> (\<exists>tr. raf_queue (snd (step (PointerDown example_event example_rect ray_canine 2000) example_midway)) = [(3, tr)]
         \<and> endTarget tr = \<lparr>vx = - 1 / 2, vy = 1, vz = 1\<rparr>
         \<and> endPos tr = \<lparr>vx = - 1 / 2, vy = 2.2, vz = 4\<rparr>
         \<and> startPos tr = \<lparr>vx = 1, vy = 1.7, vz = 3.5\<rparr>
         \<and> startTarget tr = \<lparr>vx = 1, vy = 0.5, vz = 0.5\<rparr>)"
proof -
  have g: "gltfScene (fst example_midway)" and n: "selectedMesh (fst example_midway) \<noteq> Some 1"
    by (simp_all add: example_midway_eq example_selected_eq)
  have v: "next_raf (snd example_midway) = 3"
    "camera_position (snd example_midway) = \<lparr>vx = 1, vy = 1.7, vz = 3.5\<rparr>"
    "controls_target (snd example_midway) = \<lparr>vx = 1, vy = 0.5, vz = 0.5\<rparr>"
    "getCenter (bbox (objs (snd example_midway) ! 1)) = \<lparr>vx = - 1 / 2, vy = 1, vz = 1\<rparr>"
    by (simp_all add: example_midway_eq example_selected_eq example_defs getCenter_def isEmpty_def
          Vector3_add_def multiplyScalar_def)
  have w: "Vector3_add \<lparr>vx = - 1 / 2, vy = 1, vz = 1\<rparr>
             (Vector3_sub \<lparr>vx = 1, vy = 1.7, vz = 3.5\<rparr> \<lparr>vx = 1, vy = 0.5, vz = 0.5\<rparr>)
           = \<lparr>vx = - 1 / 2, vy = 2.2, vz = 4\<rparr>"
    by (simp add: Vector3_add_def Vector3_sub_def)
  from selection_end_pose [OF example_pairs(3) g example_event_ok(3) example_picks(3) n, of 2000,
      unfolded prod.collapse v w]
  obtain tr where "raf_queue (snd (step (PointerDown example_event example_rect ray_canine 2000) example_midway)) = [(3, tr)]"
    "endTarget tr = \<lparr>vx = - 1 / 2, vy = 1, vz = 1\<rparr>" "endPos tr = \<lparr>vx = - 1 / 2, vy = 2.2, vz = 4\<rparr>"
    "startPos tr = \<lparr>vx = 1, vy = 1.7, vz = 3.5\<rparr>" "startTarget tr = \<lparr>vx = 1, vy = 0.5, vz = 0.5\<rparr>"
    by blast
  then have "\<exists>tr. raf_queue (snd (step (PointerDown example_event example_rect ray_canine 2000) example_midway)) = [(3, tr)]
         \<and> endTarget tr = \<lparr>vx = - 1 / 2, vy = 1, vz = 1\<rparr>
         \<and> endPos tr = \<lparr>vx = - 1 / 2, vy = 2.2, vz = 4\<rparr>
         \<and> startPos tr = \<lparr>vx = 1, vy = 1.7, vz = 3.5\<rparr>
         \<and> startTarget tr = \<lparr>vx = 1, vy = 0.5, vz = 0.5\<rparr>"
    by blast
  with example_midway_reachable g example_picks(3) n show ?thesis by blast
qed

subsection \<open>C1: what a pick that hits does\<close>

text \<open>
  C1 as stated fails where it speaks of the surface that is already selected: after the
  transition to the molar has ended, a pointer-down that hits the molar again leaves the
  selection on the molar, but no animation-frame callback is requested (none was pending
  before, none is pending after). The dependency array of the animator's effect holds the
  selected mesh, the reset request and the reset key, and none of them changes.
\<close>

theorem reselect_no_transition_counterexample:
  "reachable example_arrived
   \<and> gltfScene (fst example_arrived)
   \<and> selectedMesh (fst example_arrived) = Some 0
   \<and> fst (pick ray_molar (objs (snd example_arrived)) example_rect example_event) = Some 0
   \<and> selectedMesh (fst (step (PointerDown example_event example_rect ray_molar 2000) example_arrived)) = Some 0
   \<and> raf_queue (snd example_arrived) = []
   \<and> raf_queue (snd (step (PointerDown example_event example_rect ray_molar 2000) example_arrived)) = []"
proof -
  have 1: "gltfScene (fst example_arrived)" "selectedMesh (fst example_arrived) = Some 0"
    "raf_queue (snd example_arrived) = []"
    by (simp_all add: example_arrived_eq example_selected_eq)
  have 2: "selectedMesh (fst (step (PointerDown example_event example_rect ray_molar 2000) example_arrived)) = Some 0"
    "raf_queue (snd (step (PointerDown example_event example_rect ray_molar 2000) example_arrived)) = []"
    unfolding example_arrived_eq example_selected_eq
    by (simp_all add: eval_defs example_defs)
  from example_arrived_reachable 1 example_picks(1) 2 show ?thesis by (simp del: step.simps)
qed

text \<open>
  C1, amended. Every pointer-down that hits a mesh makes that mesh the selection (id,
  display name and mesh) and clears the reset request. If the mesh was not the selection
  before, one transition is then pending, started at the time of the pick from the live
  pose towards the centre of the mesh; if the mesh was the selection already, the host
  is left as it was: no transition is requested, and a running one goes on.
\<close>

theorem pick_hit_transition:
  assumes r: "reachable (a, h)" and scene: "gltfScene a"
    and ok: "event_ok (PointerDown ev rect ray now) (a, h)"
    and hit: "fst (pick ray (objs h) rect ev) = Some m"
  shows "selectedMesh (fst (step (PointerDown ev rect ray now) (a, h))) = Some m
     \<and> selectedId (fst (step (PointerDown ev rect ray now) (a, h))) = Some (uuid (objs h ! m))
     \<and> selectedName (fst (step (PointerDown ev rect ray now) (a, h))) = display_name (objs h ! m)
     \<and> resetView (fst (step (PointerDown ev rect ray now) (a, h))) = None
     \<and> (if selectedMesh a = Some m
         then snd (step (PointerDown ev rect ray now) (a, h)) = h
         else \<exists>tr. raf_queue (snd (step (PointerDown ev rect ray now) (a, h))) = [(next_raf h, tr)]
                \<and> startTime tr = now
                \<and> startPos tr = camera_position h \<and> startTarget tr = controls_target h
                \<and> endTarget tr = getCenter (bbox (objs h ! m)))"
proof -
  let ?a = "handlePointerDown ray (objs h) rect ev a"
  note f = reachable_facts [OF r]
  note a' = handlePointerDown_hit [OF hit, of a]
  have st: "step (PointerDown ev rect ray now) (a, h) = (?a, commit now a ?a h)"
    using scene by (simp add: Let_def)
  have si: "sel_inv ?a h" using sel_inv_pointer_down [OF f(4) scene] ok by simp
  have v: "\<And>k. selectedMesh ?a = Some k \<Longrightarrow> k < length (objs h)"
    using si by (rule sel_inv_valid)
  show ?thesis
  proof (cases "selectedMesh a = Some m")
    case True
    with f(4) have "selectedId a = Some (uuid (objs h ! m))" and "resetView a = None"
      by (simp_all add: sel_inv_def)
    then have "commit now a ?a h = h"
      using True by (intro commit_same) (simp_all add: a' CameraFocus_deps_changed_def)
    then show ?thesis unfolding st using True a' by simp
  next
    case False
    have ch: "CameraFocus_deps_changed a ?a" using False by (simp add: CameraFocus_deps_changed_def a')
    have "raf_queue (commit now a ?a h) =
       (if CameraFocus_deps_changed a ?a
        then (if controlsRef_current h \<and> (selectedMesh ?a \<noteq> None \<or> resetView ?a \<noteq> None)
              then [(next_raf h, new_transition now ?a h)] else [])
        else raf_queue h)"
      by (rule commit_queue [OF f(1) f(2) f(3)]) (rule v)
    then have q: "raf_queue (commit now a ?a h) = [(next_raf h, new_transition now ?a h)]"
      using ch f(5) a' by simp
    have e: "fst (the (end_pose ?a h)) = getCenter (bbox (objs h ! m))"
      by (simp add: end_pose_def a' Let_def)
    show ?thesis unfolding st using False a' q e by (simp add: new_transition_def)
  qed
qed

text \<open>
  With the molar selected and the camera arrived: picking the molar again changes
  nothing in the host; picking the canine starts a transition at time 2000.
\<close>

theorem pick_hit_transition_witness:
  "reachable example_arrived \<and> gltfScene (fst example_arrived)
   \<and> selectedMesh (fst example_arrived) = Some 0
   \<and> fst (pick ray_molar (objs (snd example_arrived)) example_rect example_event) = Some 0
   \<and> snd (step (PointerDown example_event example_rect ray_molar 2000) example_arrived) = snd example_arrived
   \<and> fst (pick ray_canine (objs (snd example_arrived)) example_rect example_event) = Some 1
   \<and> selectedMesh (fst (step (PointerDown example_event example_rect ray_canine 2000) example_arrived)) = Some 1
   \<and> selectedName (fst (step (PointerDown example_event example_rect ray_canine 2000) example_arrived)) = ''Canine''
   \<and> (\<exists>tr. raf_queue (snd (step (PointerDown example_event example_rect ray_canine 2000) example_arrived)) = [(3, tr)]
         \<and> startTime tr = 2000 \<and> startPos tr = \<lparr>vx = 2, vy = 2.2, vz = 4\<rparr>
         \<and> endTarget tr = \<lparr>vx = - 1 / 2, vy = 1, vz = 1\<rparr>)"
proof -
  have g: "gltfScene (fst example_arrived)" and m: "selectedMesh (fst example_arrived) = Some 0"
    by (simp_all add: example_arrived_eq example_selected_eq)
  have v: "next_raf (snd example_arrived) = 3"
    "camera_position (snd example_arrived) = \<lparr>vx = 2, vy = 2.2, vz = 4\<rparr>"
    "getCenter (bbox (objs (snd example_arrived) ! 1)) = \<lparr>vx = - 1 / 2, vy = 1, vz = 1\<rparr>"
    "display_name (objs (snd example_arrived) ! 1) = ''Canine''"
    by (simp_all add: example_arrived_eq example_selected_eq example_defs getCenter_def isEmpty_def
          Vector3_add_def multiplyScalar_def display_name_def)
  note same = pick_hit_transition [OF example_pairs(4) g example_event_ok(1) example_picks(1), of 2000,
      unfolded prod.collapse]
  note other = pick_hit_transition [OF example_pairs(4) g example_event_ok(2) example_picks(2), of 2000,
      unfolded prod.collapse v]
  from same m
  have 1: "snd (step (PointerDown example_event example_rect ray_molar 2000) example_arrived) = snd example_arrived"
    by (simp del: step.simps)
  from other m
  have 2: "selectedMesh (fst (step (PointerDown example_event example_rect ray_canine 2000) example_arrived)) = Some 1
   \<and> selectedName (fst (step (PointerDown example_event example_rect ray_canine 2000) example_arrived)) = ''Canine''
   \<and> (\<exists>tr. raf_queue (snd (step (PointerDown example_event example_rect ray_canine 2000) example_arrived)) = [(3, tr)]
         \<and> startTime tr = 2000 \<and> startPos tr = \<lparr>vx = 2, vy = 2.2, vz = 4\<rparr>
         \<and> endTarget tr = \<lparr>vx = - 1 / 2, vy = 1, vz = 1\<rparr>)"
    by (simp del: step.simps) blast
  from example_arrived_reachable g m example_picks(1,2) 1 2 show ?thesis by (simp del: step.simps)
qed

subsection \<open>C2: a transition that supersedes a running one\<close>

text \<open>
  C2. Let transition \<open>A\<close> be pending in a reachable state and let a frame run at fraction
  \<open>t\<close> with \<open>0 < t < 1\<close> (the orbit controls' \<open>update\<close> leaving the interpolated pose as it
  is). The frame puts the live pose at \<open>A\<close>'s interpolated pose at \<open>t\<close> and requests
  \<open>A\<close>'s callback again. If the next event, not a frame, leaves a pending callback other
  than that one, then it is the only pending callback (the callback of \<open>A\<close> has been
  cancelled), it has a fresh id, and its transition \<open>B\<close> starts at \<open>A\<close>'s interpolated
  pose at \<open>t\<close>, position and orbit target.
\<close>

theorem transition_continuity:
  assumes r: "reachable (a, h)"
    and q: "raf_queue h = [(k, A)]"
    and t: "t = (now - startTime A) / 600" and t0: "0 < t" and t1: "t < 1"
    and p: "p = \<lparr>position = lerpVectors (startPos A) (endPos A) (easeInOut t),
                  target = lerpVectors (startTarget A) (endTarget A) (easeInOut t)\<rparr>"
    and u: "update p = p"
    and nf: "\<not> is_frame e"
    and ok: "event_ok e (step (Frame now update) (a, h))"
    and B: "raf_queue (snd (step e (step (Frame now update) (a, h)))) = [(k', B)]"
    and new: "(k', B) \<noteq> (next_raf h, A)"
  shows "raf_queue (snd (step (Frame now update) (a, h))) = [(next_raf h, A)]
    \<and> camera_position (snd (step (Frame now update) (a, h))) = position p
    \<and> controls_target (snd (step (Frame now update) (a, h))) = target p
    \<and> k' = Suc (next_raf h)
    \<and> startPos B = position p \<and> startTarget B = target p"
proof -
  let ?h1 = "run_frame update now h"
  have lt: "now - startTime A < 600" using t t1 by simp
  note fr = frame_in_flight [OF q lt, of update]
  have pos: "camera_position ?h1 = position p" and tgt: "controls_target ?h1 = target p"
    using fr(3,4) u by (simp_all add: t [symmetric] p [symmetric])
  have r1: "reachable (a, ?h1)" using reachable_step [OF r, of "Frame now update"] by simp
  have ok1: "event_ok e (a, ?h1)" using ok by simp
  from step_queue [OF reachable_inv [OF r1] ok1 nf]
  have "raf_queue (snd (step e (a, ?h1))) = raf_queue ?h1
    \<or> raf_queue (snd (step e (a, ?h1))) = []
    \<or> (\<exists>tr. raf_queue (snd (step e (a, ?h1))) = [(next_raf ?h1, tr)]
          \<and> startPos tr = camera_position ?h1 \<and> startTarget tr = controls_target ?h1)" .
  moreover have B': "raf_queue (snd (step e (a, ?h1))) = [(k', B)]" using B by simp
  ultimately have "k' = Suc (next_raf h) \<and> startPos B = position p \<and> startTarget B = target p"
    using new fr(1,2) pos tgt by auto
  then show ?thesis using fr(1) pos tgt by simp
qed

text \<open>
  Home clicked after the frame at half of the transition to the molar: the new
  transition starts at (1, 1.7, 3.5), not at the start (0, 1.2, 3) of the old one.
\<close>

theorem transition_continuity_witness:
  "reachable example_selected
   \<and> raf_queue (snd example_selected) = [(1, example_transition)]
   \<and> raf_queue (snd (step (Frame 1300 (\<lambda>p. p)) example_selected)) = [(2, example_transition)]
   \<and> raf_queue (snd (step (HomeClick 2000) (step (Frame 1300 (\<lambda>p. p)) example_selected))) =
       [(3, \<lparr>startPos = \<lparr>vx = 1, vy = 1.7, vz = 3.5\<rparr>, startTarget = \<lparr>vx = 1, vy = 0.5, vz = 0.5\<rparr>,
             endPos = \<lparr>vx = 0, vy = 1.2, vz = 3\<rparr>, endTarget = \<lparr>vx = 0, vy = 0, vz = 0\<rparr>,
             startTime = 2000\<rparr>)]
   \<and> startPos example_transition = \<lparr>vx = 0, vy = 1.2, vz = 3\<rparr>
   \<and> lerpVectors (startPos example_transition) (endPos example_transition) (easeInOut (1 / 2))
       = \<lparr>vx = 1, vy = 1.7, vz = 3.5\<rparr>
   \<and> lerpVectors (startTarget example_transition) (endTarget example_transition) (easeInOut (1 / 2))
       = \<lparr>vx = 1, vy = 0.5, vz = 0.5\<rparr>"
proof -
  let ?B = "\<lparr>startPos = \<lparr>vx = 1, vy = 1.7, vz = 3.5\<rparr>, startTarget = \<lparr>vx = 1, vy = 0.5, vz = 0.5\<rparr>,
             endPos = \<lparr>vx = 0, vy = 1.2, vz = 3\<rparr>, endTarget = \<lparr>vx = 0, vy = 0, vz = 0\<rparr>,
             startTime = 2000\<rparr>"
  have q: "raf_queue (snd example_selected) = [(1, example_transition)]"
    and n: "next_raf (snd example_selected) = 2"
    by (simp_all add: example_selected_eq)
  have t: "(1 / 2 :: real) = (1300 - startTime example_transition) / 600"
    by (simp add: example_transition_def)
  have B: "raf_queue (snd (step (HomeClick 2000) (step (Frame 1300 (\<lambda>p. p))
             (fst example_selected, snd example_selected)))) = [(3, ?B)]"
    unfolding prod.collapse example_midway_def [symmetric] example_home_def [symmetric]
    by (simp add: example_home_eq)
  have new: "(3, ?B) \<noteq> (next_raf (snd example_selected), example_transition)" by (simp add: n)
  have ok: "event_ok (HomeClick 2000) (step (Frame 1300 (\<lambda>p. p)) (fst example_selected, snd example_selected))"
    by simp
  have nf: "\<not> is_frame (HomeClick 2000)" by simp
  have e: "easeInOut (1 / 2) = 1 / 2" by (simp add: easeInOut_def)
  from transition_continuity [OF example_pairs(2) q t _ _ refl refl nf ok B new]
  have c: "raf_queue (snd (step (Frame 1300 (\<lambda>p. p)) (fst example_selected, snd example_selected)))
        = [(next_raf (snd example_selected), example_transition)]
    \<and> startPos ?B = lerpVectors (startPos example_transition) (endPos example_transition) (easeInOut (1 / 2))
    \<and> startTarget ?B = lerpVectors (startTarget example_transition) (endTarget example_transition) (easeInOut (1 / 2))"
    by simp
  then have 1: "raf_queue (snd (step (Frame 1300 (\<lambda>p. p)) example_selected)) = [(2, example_transition)]"
    and 2: "lerpVectors (startPos example_transition) (endPos example_transition) (easeInOut (1 / 2))
       = \<lparr>vx = 1, vy = 1.7, vz = 3.5\<rparr>"
    and 3: "lerpVectors (startTarget example_transition) (endTarget example_transition) (easeInOut (1 / 2))
       = \<lparr>vx = 1, vy = 0.5, vz = 0.5\<rparr>"
    unfolding prod.collapse n by simp_all
  have 4: "startPos example_transition = \<lparr>vx = 0, vy = 1.2, vz = 3\<rparr>" by (simp add: example_transition_def)
  from example_selected_reachable q 1 B [unfolded prod.collapse] 2 3 4 show ?thesis
    by (simp del: step.simps)
qed

subsection \<open>C6: exclusive highlight\<close>

text \<open>
  C6 as stated fails where it says that the highlight is applied to the new selection:
  the traversal returns early for a mesh whose material has no emissive colour (and for
  a mesh with an array of materials), while the picker selects any mesh that a ray meets.
  In the scene with one unlit tooth, after that tooth has been picked it is the selected
  mesh and does not show the highlight.
\<close>

theorem unlit_selection_counterexample:
  "reachable example_unlit_selected
   \<and> gltfScene (fst example_unlit_selected)
   \<and> selectedMesh (fst example_unlit_selected) = Some 0
   \<and> selectedId (fst example_unlit_selected) = Some (uuid (objs (snd example_unlit_selected) ! 0))
   \<and> isMesh (objs (snd example_unlit_selected) ! 0)
   \<and> \<not> highlightable (snd example_unlit_selected) 0
   \<and> \<not> highlighted (snd example_unlit_selected) 0"
proof -
  have "gltfScene (fst example_unlit_selected)"
    "selectedMesh (fst example_unlit_selected) = Some 0"
    "selectedId (fst example_unlit_selected) = Some (uuid (objs (snd example_unlit_selected) ! 0))"
    "isMesh (objs (snd example_unlit_selected) ! 0)"
    "\<not> highlightable (snd example_unlit_selected) 0"
    "\<not> highlighted (snd example_unlit_selected) 0"
    by (simp_all add: example_unlit_selected_eq highlightable_def highlighted_def)
  with example_unlit_selected_reachable show ?thesis by simp
qed

text \<open>
  C6, amended. In every reachable state with the scene loaded (objects with distinct
  uuids), a mesh that shows the highlight is the selected mesh, so at most one mesh shows
  it; the selected mesh shows it when its material is a single material with an emissive
  colour. After a pointer-down that hits a mesh, no other mesh shows the highlight, in
  particular not the one selected before, and the new one shows it when its material is
  a single material with an emissive colour.
\<close>

theorem exclusive_highlight:
  assumes r: "reachable (a, h)" and scene: "gltfScene a"
  shows "(\<forall>i<length (objs h). isMesh (objs h ! i) \<and> highlighted h i
            \<longrightarrow> selectedId a = Some (uuid (objs h ! i)) \<and> selectedMesh a = Some i)
    \<and> (\<forall>i<length (objs h). \<forall>j<length (objs h).
          isMesh (objs h ! i) \<and> highlighted h i \<and> isMesh (objs h ! j) \<and> highlighted h j \<longrightarrow> i = j)
    \<and> (\<forall>m. selectedMesh a = Some m \<and> highlightable h m \<longrightarrow> highlighted h m)
    \<and> (event_ok (PointerDown ev rect ray now) (a, h) \<and> fst (pick ray (objs h) rect ev) = Some m'
         \<longrightarrow> selectedMesh (fst (step (PointerDown ev rect ray now) (a, h))) = Some m'
           \<and> (\<forall>i<length (objs h). isMesh (objs h ! i) \<and> i \<noteq> m'
                 \<longrightarrow> \<not> highlighted (snd (step (PointerDown ev rect ray now) (a, h))) i)
           \<and> (highlightable (snd (step (PointerDown ev rect ray now) (a, h))) m'
                 \<longrightarrow> highlighted (snd (step (PointerDown ev rect ray now) (a, h))) m'))"
proof -
  have 1: "\<forall>i<length (objs h). isMesh (objs h ! i) \<and> highlighted h i
            \<longrightarrow> selectedId a = Some (uuid (objs h ! i)) \<and> selectedMesh a = Some i"
    using highlighted_is_selected [OF r scene] by blast
  then have 2: "\<forall>i<length (objs h). \<forall>j<length (objs h).
          isMesh (objs h ! i) \<and> highlighted h i \<and> isMesh (objs h ! j) \<and> highlighted h j \<longrightarrow> i = j"
    by (metis option.inject)
  have 3: "\<forall>m. selectedMesh a = Some m \<and> highlightable h m \<longrightarrow> highlighted h m"
    using selected_is_highlighted [OF r] by blast
  have 4: "event_ok (PointerDown ev rect ray now) (a, h) \<and> fst (pick ray (objs h) rect ev) = Some m'
         \<longrightarrow> selectedMesh (fst (step (PointerDown ev rect ray now) (a, h))) = Some m'
           \<and> (\<forall>i<length (objs h). isMesh (objs h ! i) \<and> i \<noteq> m'
                 \<longrightarrow> \<not> highlighted (snd (step (PointerDown ev rect ray now) (a, h))) i)
           \<and> (highlightable (snd (step (PointerDown ev rect ray now) (a, h))) m'
                 \<longrightarrow> highlighted (snd (step (PointerDown ev rect ray now) (a, h))) m')"
  proof (intro impI, elim conjE)
    assume ok: "event_ok (PointerDown ev rect ray now) (a, h)"
      and hit: "fst (pick ray (objs h) rect ev) = Some m'"
    let ?s = "step (PointerDown ev rect ray now) (a, h)"
    let ?a = "handlePointerDown ray (objs h) rect ev a"
    have st: "?s = (?a, commit now a ?a h)" using scene by (simp add: Let_def)
    have r': "reachable (?a, commit now a ?a h)"
      using reachable_step [OF r ok] st by simp
    have g': "gltfScene ?a"
      using scene by (simp add: handlePointerDown_def Let_def onSelect_def onMiss_def onFirstInteract_def split: option.splits)
    have sel: "selectedMesh ?a = Some m'" by (rule handlePointerDown_hit(1) [OF hit])
    note f = reachable_facts [OF r]
    have stat: "map static (objs (commit now a ?a h)) = map static (objs h)"
      by (rule commit_static [OF f(2) f(3)])
    have len: "length (objs (commit now a ?a h)) = length (objs h)" by (rule static_length [OF stat])
    have a: "\<forall>i<length (objs h). isMesh (objs h ! i) \<and> i \<noteq> m' \<longrightarrow> \<not> highlighted (commit now a ?a h) i"
    proof (intro allI impI notI, elim conjE)
      fix i assume i: "i < length (objs h)" and m: "isMesh (objs h ! i)" and ne: "i \<noteq> m'"
        and hl: "highlighted (commit now a ?a h) i"
      have "isMesh (objs (commit now a ?a h) ! i)" using static_nth(3) [OF stat i] m by simp
      from highlighted_is_selected [OF r' g' _ this hl] i len sel ne show False by simp
    qed
    have b: "highlightable (commit now a ?a h) m' \<longrightarrow> highlighted (commit now a ?a h) m'"
      using selected_is_highlighted [OF r' sel] by simp
    show "selectedMesh (fst ?s) = Some m'
           \<and> (\<forall>i<length (objs h). isMesh (objs h ! i) \<and> i \<noteq> m' \<longrightarrow> \<not> highlighted (snd ?s) i)
           \<and> (highlightable (snd ?s) m' \<longrightarrow> highlighted (snd ?s) m')"
      unfolding st using sel a b by simp
  qed
  show ?thesis by (rule conjI [OF 1 conjI [OF 2 conjI [OF 3 4]]])
qed

text \<open>
  With the molar selected, the molar is highlighted and the canine is not, although both
  shared one material when the scene was loaded; picking the canine removes the highlight
  from the molar.
\<close>

theorem exclusive_highlight_witness:
  "reachable example_selected \<and> gltfScene (fst example_selected)
   \<and> selectedMesh (fst example_selected) = Some 0
   \<and> highlightable (snd example_selected) 0
   \<and> highlighted (snd example_selected) 0
   \<and> \<not> highlighted (snd example_selected) 1
   \<and> \<not> highlighted (snd (step (PointerDown example_event example_rect ray_canine 2000) example_selected)) 0"
proof -
  have g: "gltfScene (fst example_selected)" and m: "selectedMesh (fst example_selected) = Some 0"
    and c: "highlightable (snd example_selected) 0"
    and l: "length (objs (snd example_selected)) = 2"
    and i: "isMesh (objs (snd example_selected) ! 1)" "isMesh (objs (snd example_selected) ! 0)"
    by (simp_all add: example_selected_eq highlightable_def example_defs)
  have pk: "fst (pick ray_canine (objs (snd example_selected)) example_rect example_event) = Some 1"
    by (simp add: example_selected_eq pick_def offsets_def Let_def example_defs)
  note t = exclusive_highlight [OF example_pairs(2) g,
      of example_event example_rect ray_canine 2000 1, unfolded prod.collapse]
  from t [THEN conjunct1, rule_format, of 1] l i m
  have 1: "\<not> highlighted (snd example_selected) 1" by auto
  from t [THEN conjunct2, THEN conjunct2, THEN conjunct1, rule_format, of 0] m c
  have 2: "highlighted (snd example_selected) 0" by simp
  have ok: "event_ok (PointerDown example_event example_rect ray_canine 2000) example_selected"
    using example_event_ok(5) [of 2000] by simp
  from t [THEN conjunct2, THEN conjunct2, THEN conjunct2, rule_format, OF conjI [OF ok pk]]
  have "\<forall>i<length (objs (snd example_selected)). isMesh (objs (snd example_selected) ! i) \<and> i \<noteq> 1
          \<longrightarrow> \<not> highlighted (snd (step (PointerDown example_event example_rect ray_canine 2000) example_selected)) i"
    by (simp del: step.simps)
  from this [rule_format, of 0] l i
  have 3: "\<not> highlighted (snd (step (PointerDown example_event example_rect ray_canine 2000) example_selected)) 0"
    by (simp del: step.simps)
  from example_selected_reachable g m c 1 2 3 show ?thesis by (simp del: step.simps)
qed

end
